theory Spec2Isabelle
  imports Main "HOL-Library.Sublist" "HOL-Library.Multiset"
begin

section \<open>Python values and exceptions\<close>

text \<open>
  The program passes JSON-shaped Python values around: search results, event records and
  the generated documents are dictionaries, lists, strings and numbers. \<open>pyval\<close> is
  that universe. A dictionary is an insertion-ordered association list with distinct
  keys, as a Python \<open>dict\<close> is. Floats are not represented and strings are ASCII (one
  \<open>char\<close> per character).
\<close>

datatype pyval =
    PNone
  | PBool bool
  | PInt int
  | PStr string
  | PList "pyval list"
  | PDict "(pyval \<times> pyval) list"

datatype py_error = AttributeError | TypeError | KeyError | ValueError | IndexError

text \<open>Sequencing of fallible steps: the first exception raised ends the computation.\<close>

definition and_then :: "py_error + 'a \<Rightarrow> ('a \<Rightarrow> py_error + 'b) \<Rightarrow> py_error + 'b" where
  "and_then m f = (case m of Inl e \<Rightarrow> Inl e | Inr x \<Rightarrow> f x)"

text \<open>A list comprehension whose element expression may raise.\<close>

fun map_res :: "('a \<Rightarrow> py_error + 'b) \<Rightarrow> 'a list \<Rightarrow> py_error + 'b list" where
  "map_res f [] = Inr []"
| "map_res f (x # xs) =
     (case f x of
        Inl e \<Rightarrow> Inl e
      | Inr y \<Rightarrow> (case map_res f xs of Inl e \<Rightarrow> Inl e | Inr ys \<Rightarrow> Inr (y # ys)))"

subsection \<open>Equality, hashing and dictionaries\<close>

text \<open>
  \<open>==\<close> between hashable values: a \<open>bool\<close> is an \<open>int\<close> (\<open>True == 1\<close>), everything
  else is equal to values of its own type only.
\<close>

fun scalar_eq :: "pyval \<Rightarrow> pyval \<Rightarrow> bool" where
  "scalar_eq (PBool a) (PInt i) = (i = (if a then 1 else 0))"
| "scalar_eq (PInt i) (PBool a) = (i = (if a then 1 else 0))"
| "scalar_eq x y = (x = y)"

text \<open>Lists and dictionaries cannot be hashed: as a set element or a key they raise TypeError.\<close>

fun hashable :: "pyval \<Rightarrow> bool" where
  "hashable (PList xs) = False"
| "hashable (PDict d) = False"
| "hashable PNone = True"
| "hashable (PBool b) = True"
| "hashable (PInt i) = True"
| "hashable (PStr s) = True"

text \<open>\<open>k in d\<close> / \<open>d[k]\<close> and \<open>d[k] = v\<close> on an insertion-ordered dictionary.\<close>

fun dict_lookup :: "(pyval \<times> 'v) list \<Rightarrow> pyval \<Rightarrow> 'v option" where
  "dict_lookup [] k = None"
| "dict_lookup ((k', v) # d) k = (if scalar_eq k' k then Some v else dict_lookup d k)"

fun dict_set :: "(pyval \<times> 'v) list \<Rightarrow> pyval \<Rightarrow> 'v \<Rightarrow> (pyval \<times> 'v) list" where
  "dict_set [] k v = [(k, v)]"
| "dict_set ((k', v') # d) k v =
     (if scalar_eq k' k then (k', v) # d else (k', v') # dict_set d k v)"

text \<open>The dictionary a loop builds by assigning the items in order.\<close>

definition dict_of_items :: "(pyval \<times> 'v) list \<Rightarrow> (pyval \<times> 'v) list" where
  "dict_of_items items = foldl (\<lambda>d (k, v). dict_set d k v) [] items"

text \<open>\<open>x.get(key, default)\<close>: only a dictionary has the method.\<close>

fun py_get :: "pyval \<Rightarrow> string \<Rightarrow> pyval \<Rightarrow> py_error + pyval" where
  "py_get (PDict d) k dflt = Inr (case dict_lookup d (PStr k) of Some v \<Rightarrow> v | None \<Rightarrow> dflt)"
| "py_get PNone k dflt = Inl AttributeError"
| "py_get (PBool b) k dflt = Inl AttributeError"
| "py_get (PInt i) k dflt = Inl AttributeError"
| "py_get (PStr s) k dflt = Inl AttributeError"
| "py_get (PList xs) k dflt = Inl AttributeError"

text \<open>Truth value of \<open>not x\<close> / \<open>if x\<close>.\<close>

fun truthy :: "pyval \<Rightarrow> bool" where
  "truthy PNone = False"
| "truthy (PBool b) = b"
| "truthy (PInt i) = (i \<noteq> 0)"
| "truthy (PStr s) = (s \<noteq> [])"
| "truthy (PList xs) = (xs \<noteq> [])"
| "truthy (PDict d) = (d \<noteq> [])"

text \<open>\<open>for x in v\<close>: a list gives its items, a string its characters, a dictionary its keys.\<close>

fun py_iter :: "pyval \<Rightarrow> py_error + pyval list" where
  "py_iter (PList xs) = Inr xs"
| "py_iter (PStr s) = Inr (map (\<lambda>c. PStr [c]) s)"
| "py_iter (PDict d) = Inr (map fst d)"
| "py_iter PNone = Inl TypeError"
| "py_iter (PBool b) = Inl TypeError"
| "py_iter (PInt i) = Inl TypeError"

section \<open>Event detection (event_detector.py)\<close>

subsection \<open>The quoted-literal scan\<close>

text \<open>
  \<open>re.findall(r'["\']([a-zA-Z0-9._-]+)["\']', line)\<close>: the scan goes left to right;
  at a quote character it takes the longest run of name characters, and the run is a
  match when it is not empty and a quote character follows it. The characters of a
  match, its closing quote included, are consumed: the scan goes on after them.
  Since a quote is not a name character, backtracking into the run never helps.
\<close>

definition is_quote :: "char \<Rightarrow> bool" where
  "is_quote c = (c = CHR 0x22 \<or> c = CHR 0x27)"

definition is_name_char :: "char \<Rightarrow> bool" where
  "is_name_char c =
     (let n = (of_char c :: nat) in
        (97 \<le> n \<and> n \<le> 122) \<or> (65 \<le> n \<and> n \<le> 90) \<or> (48 \<le> n \<and> n \<le> 57)
        \<or> c = CHR ''.'' \<or> c = CHR ''_'' \<or> c = CHR ''-'')"

function findall_quoted :: "string \<Rightarrow> string list" where
  "findall_quoted [] = []"
| "findall_quoted (c # cs) =
     (if is_quote c then
        (case dropWhile is_name_char cs of
           [] \<Rightarrow> findall_quoted cs
         | d # ds \<Rightarrow>
             if takeWhile is_name_char cs \<noteq> [] \<and> is_quote d
             then takeWhile is_name_char cs # findall_quoted ds
             else findall_quoted cs)
      else findall_quoted cs)"
  by pat_completeness auto
termination
proof (relation "measure length")
  fix c :: char and cs :: string and d ds
  assume "dropWhile is_name_char cs = d # ds"
  then have "length (d # ds) \<le> length cs"
    by (metis length_dropWhile_le)
  then show "(ds, c # cs) \<in> measure length" by simp
qed auto

text \<open>\<open>re.findall\<close> with a \<open>str\<close> pattern raises TypeError on anything but a \<open>str\<close>.\<close>

fun re_findall :: "pyval \<Rightarrow> py_error + string list" where
  "re_findall (PStr s) = Inr (findall_quoted s)"
| "re_findall PNone = Inl TypeError"
| "re_findall (PBool b) = Inl TypeError"
| "re_findall (PInt i) = Inl TypeError"
| "re_findall (PList xs) = Inl TypeError"
| "re_findall (PDict d) = Inl TypeError"

subsection \<open>Event name extraction\<close>

text \<open>\<open>len(s) > 2 and not s.startswith('_')\<close>\<close>

definition reasonable :: "string \<Rightarrow> bool" where
  "reasonable s = (length s > 2 \<and> \<not> (case s of [] \<Rightarrow> False | c # cs \<Rightarrow> c = CHR ''_''))"

text \<open>The loop of \<open>_extract_event_name\<close> over the matched lines.\<close>

fun extract_loop :: "pyval list \<Rightarrow> string \<Rightarrow> py_error + string" where
  "extract_loop [] broker_type = Inr (broker_type @ ''_event'')"
| "extract_loop (m # ms) broker_type =
     and_then (py_get m ''line'' (PStr '''')) (\<lambda>line.
     and_then (re_findall line) (\<lambda>strings.
       case find reasonable strings of
         Some s \<Rightarrow> Inr s
       | None \<Rightarrow> extract_loop ms broker_type))"

definition extract_event_name :: "pyval \<Rightarrow> string \<Rightarrow> py_error + string" where
  "extract_event_name line_matches broker_type =
     and_then (py_iter line_matches) (\<lambda>ms. extract_loop ms broker_type)"

subsection \<open>Parsing one search result\<close>

text \<open>The dictionary \<open>_parse_event\<close> returns always has these six keys (\<open>file'\<close> is its
  key \<open>file\<close>).\<close>

record event =
  name :: string
  broker :: string
  file' :: pyval
  repository :: pyval
  lines :: "pyval list"
  source_code :: "pyval list"

text \<open>The body of the \<open>try\<close> block of \<open>_parse_event\<close>; \<open>Inr None\<close> is \<open>return None\<close>.\<close>

definition parse_event_body :: "pyval \<Rightarrow> string \<Rightarrow> py_error + event option" where
  "parse_event_body match broker_type =
     and_then (py_get match ''file'' (PDict [])) (\<lambda>f.
     and_then (py_get f ''path'' (PStr '''')) (\<lambda>file_path.
     and_then (py_get match ''repository'' (PDict [])) (\<lambda>r.
     and_then (py_get r ''name'' (PStr '''')) (\<lambda>repo_name.
     and_then (py_get match ''lineMatches'' (PList [])) (\<lambda>line_matches.
       if \<not> truthy line_matches then Inr None
       else
         and_then (extract_event_name line_matches broker_type) (\<lambda>event_name.
         and_then (py_iter line_matches) (\<lambda>lms.
         and_then (map_res (\<lambda>lm. py_get lm ''lineNumber'' (PInt 0)) lms) (\<lambda>line_numbers.
         and_then (map_res (\<lambda>lm. py_get lm ''line'' (PStr '''')) lms) (\<lambda>line_texts.
           Inr (Some \<lparr> name = event_name, broker = broker_type, file' = file_path,
                       repository = repo_name, lines = line_numbers,
                       source_code = line_texts \<rparr>))))))))))"

text \<open>\<open>except Exception\<close>: whatever the body raises is logged and \<open>None\<close> is returned.\<close>

definition parse_event :: "pyval \<Rightarrow> string \<Rightarrow> event option" where
  "parse_event match broker_type =
     (case parse_event_body match broker_type of Inl e \<Rightarrow> None | Inr r \<Rightarrow> r)"

subsection \<open>Deduplication\<close>

definition event_key :: "event \<Rightarrow> string \<times> string" where
  "event_key e = (name e, broker e)"

text \<open>The loop of \<open>_deduplicate_events\<close> with its two accumulators \<open>seen\<close> and \<open>unique_events\<close>.\<close>

fun dedup_loop :: "(string \<times> string) set \<Rightarrow> event list \<Rightarrow> event list \<Rightarrow> event list" where
  "dedup_loop seen unique_events [] = unique_events"
| "dedup_loop seen unique_events (e # es) =
     (if event_key e \<notin> seen
      then dedup_loop (insert (event_key e) seen) (unique_events @ [e]) es
      else dedup_loop seen unique_events es)"

definition deduplicate_events :: "event list \<Rightarrow> event list" where
  "deduplicate_events events = dedup_loop {} [] events"

subsection \<open>The pattern library and the scan\<close>

definition bsl :: char where
  "bsl = CHR 0x5C"

definition KAFKA_PATTERNS :: "string list" where
  "KAFKA_PATTERNS =
     [''KafkaProducer'',
      [bsl] @ ''.send'' @ [bsl] @ ''s*'' @ [bsl] @ ''('',
      ''kafka'' @ [bsl] @ ''.Producer'',
      ''@KafkaListener'']"

definition RABBITMQ_PATTERNS :: "string list" where
  "RABBITMQ_PATTERNS =
     [''channel'' @ [bsl] @ ''.basic_publish'',
      ''RabbitTemplate'',
      ''@RabbitListener'',
      ''pika'' @ [bsl] @ ''.BlockingConnection'']"

definition quote_class :: string where
  "quote_class = ''['' @ [CHR 0x22, bsl, CHR 0x27] @ '']''"

definition AWS_PATTERNS :: "string list" where
  "AWS_PATTERNS =
     [''sns'' @ [bsl] @ ''.publish'',
      ''sqs'' @ [bsl] @ ''.send_message'',
      ''boto3'' @ [bsl] @ ''.client'' @ [bsl] @ ''('' @ quote_class @ ''sns'' @ quote_class,
      ''boto3'' @ [bsl] @ ''.client'' @ [bsl] @ ''('' @ quote_class @ ''sqs'' @ quote_class]"

definition PUBSUB_PATTERNS :: "string list" where
  "PUBSUB_PATTERNS =
     [''publisher'' @ [bsl] @ ''.publish'',
      ''google'' @ [bsl] @ ''.cloud'' @ [bsl] @ ''.pubsub'',
      ''PublisherClient'']"

definition AZURE_PATTERNS :: "string list" where
  "AZURE_PATTERNS =
     [''ServiceBusClient'',
      ''send_messages'',
      ''azure'' @ [bsl] @ ''.servicebus'']"

definition GENERIC_EVENT_PATTERNS :: "string list" where
  "GENERIC_EVENT_PATTERNS =
     [[bsl] @ ''.emit'' @ [bsl] @ ''s*'' @ [bsl] @ ''('',
      [bsl] @ ''.publish'' @ [bsl] @ ''s*'' @ [bsl] @ ''('',
      [bsl] @ ''.fire'' @ [bsl] @ ''s*'' @ [bsl] @ ''('',
      ''EventEmitter'',
      [bsl] @ ''.trigger'' @ [bsl] @ ''s*'' @ [bsl] @ ''('']"

text \<open>\<open>_compile_patterns\<close>: the dictionary from broker type to its patterns, in its order.\<close>

definition compile_patterns :: "(string \<times> string list) list" where
  "compile_patterns =
     [(''kafka'', KAFKA_PATTERNS),
      (''rabbitmq'', RABBITMQ_PATTERNS),
      (''aws'', AWS_PATTERNS),
      (''pubsub'', PUBSUB_PATTERNS),
      (''azure'', AZURE_PATTERNS),
      (''generic'', GENERIC_EVENT_PATTERNS)]"

text \<open>
  The inner loop of \<open>detect_events\<close>: the results of one query, each parsed with the
  broker type of the pattern; a result that parses to \<open>None\<close> adds nothing.
\<close>

definition parse_results :: "string \<Rightarrow> pyval list \<Rightarrow> event list" where
  "parse_results broker_type results =
     List.map_filter (\<lambda>result. parse_event result broker_type) results"

text \<open>
  \<open>detect_events\<close>. The code search client is a parameter: \<open>search_code query repo\<close>
  is the list of results it returns for a query within a repository.
\<close>

definition collect_events :: "string \<Rightarrow> (string \<Rightarrow> string \<Rightarrow> pyval list) \<Rightarrow> event list" where
  "collect_events repo search_code =
     concat (map (\<lambda>(broker_type, pats).
       concat (map (\<lambda>pattern. parse_results broker_type (search_code pattern repo)) pats))
       compile_patterns)"

definition detect_events :: "string \<Rightarrow> (string \<Rightarrow> string \<Rightarrow> pyval list) \<Rightarrow> event list" where
  "detect_events repo search_code = deduplicate_events (collect_events repo search_code)"

section \<open>Python operations the generators use\<close>

subsection \<open>Equality of values\<close>

text \<open>
  \<open>==\<close> in general: lists are compared item by item, dictionaries by their items
  whatever the insertion order.
\<close>

function py_eq :: "pyval \<Rightarrow> pyval \<Rightarrow> bool" where
  "py_eq PNone y = (y = PNone)"
| "py_eq (PBool a) y = scalar_eq (PBool a) y"
| "py_eq (PInt i) y = scalar_eq (PInt i) y"
| "py_eq (PStr s) y = (y = PStr s)"
| "py_eq (PList xs) y =
     (case y of
        PList ys \<Rightarrow> length xs = length ys \<and> list_all (\<lambda>(a, b). py_eq a b) (zip xs ys)
      | _ \<Rightarrow> False)"
| "py_eq (PDict d) y =
     (case y of
        PDict e \<Rightarrow>
          length d = length e
          \<and> list_all (\<lambda>(k, v). case dict_lookup e k of None \<Rightarrow> False | Some w \<Rightarrow> py_eq v w) d
      | _ \<Rightarrow> False)"
  by pat_completeness auto
termination
proof (relation "measure (\<lambda>(x, y). size x)")
  show "wf (measure (\<lambda>(x, y). size x))" by simp
next
  fix xs :: "pyval list" and y ys z a b
  assume "z \<in> set (zip xs ys)" and "(a, b) = z"
  then have "a \<in> set xs" by (metis set_zip_leftD)
  then have "size a < Suc (size_list size xs)"
    by (induction xs) auto
  then show "((a, b), PList xs, y) \<in> measure (\<lambda>(x, y). size x)" by simp
next
  fix d :: "(pyval \<times> pyval) list" and y :: pyval and e :: "(pyval \<times> pyval) list"
    and z :: "pyval \<times> pyval" and k v w
  assume "z \<in> set d" and "(k, v) = z"
  then have "(k, v) \<in> set d" by simp
  then have "size v < Suc (size_list (size_prod size size) d)"
    by (induction d) auto
  then show "((v, w), PDict d, y) \<in> measure (\<lambda>(x, y). size x)" by simp
qed

text \<open>\<open>e.get(key, default)\<close> on an event record, which is a dictionary.\<close>

definition event_get :: "(pyval \<times> pyval) list \<Rightarrow> string \<Rightarrow> pyval \<Rightarrow> pyval" where
  "event_get ev k dflt = (case dict_lookup ev (PStr k) of Some v \<Rightarrow> v | None \<Rightarrow> dflt)"

text \<open>\<open>e[key]\<close> raises KeyError on a missing key.\<close>

definition event_item :: "(pyval \<times> pyval) list \<Rightarrow> string \<Rightarrow> py_error + pyval" where
  "event_item ev k = (case dict_lookup ev (PStr k) of Some v \<Rightarrow> Inr v | None \<Rightarrow> Inl KeyError)"

text \<open>\<open>xs.index(x)\<close>: the position of the first item equal to \<open>x\<close>, ValueError without one.\<close>

fun py_index :: "pyval list \<Rightarrow> pyval \<Rightarrow> py_error + nat" where
  "py_index [] x = Inl ValueError"
| "py_index (y # ys) x =
     (if py_eq y x then Inr 0
      else (case py_index ys x of Inl e \<Rightarrow> Inl e | Inr i \<Rightarrow> Inr (Suc i)))"

text \<open>
  The grouping loop that occurs three times in the generators:
  \<open>k = key(event); if k not in groups: groups[k] = []; groups[k].append(event)\<close>.
\<close>

fun group_events ::
  "((pyval \<times> pyval) list \<Rightarrow> pyval) \<Rightarrow> (pyval \<times> pyval) list list
    \<Rightarrow> (pyval \<times> (pyval \<times> pyval) list list) list
    \<Rightarrow> py_error + (pyval \<times> (pyval \<times> pyval) list list) list" where
  "group_events key [] groups = Inr groups"
| "group_events key (e # es) groups =
     (if \<not> hashable (key e) then Inl TypeError
      else group_events key es
             (case dict_lookup groups (key e) of
                None \<Rightarrow> dict_set groups (key e) [e]
              | Some g \<Rightarrow> dict_set groups (key e) (g @ [e])))"

subsection \<open>Text\<close>

definition digit_char :: "nat \<Rightarrow> char" where
  "digit_char d = ''0123456789abcdef'' ! d"

fun show_nat :: "nat \<Rightarrow> string" where
  "show_nat n = (if n < 10 then [digit_char n] else show_nat (n div 10) @ [digit_char (n mod 10)])"

definition show_int :: "int \<Rightarrow> string" where
  "show_int i = (if i < 0 then CHR ''-'' # show_nat (nat (- i)) else show_nat (nat i))"

definition upper_char :: "char \<Rightarrow> char" where
  "upper_char c =
     (case map_of (zip ''abcdefghijklmnopqrstuvwxyz'' ''ABCDEFGHIJKLMNOPQRSTUVWXYZ'') c of
        Some u \<Rightarrow> u | None \<Rightarrow> c)"

definition lower_char :: "char \<Rightarrow> char" where
  "lower_char c =
     (case map_of (zip ''ABCDEFGHIJKLMNOPQRSTUVWXYZ'' ''abcdefghijklmnopqrstuvwxyz'') c of
        Some l \<Rightarrow> l | None \<Rightarrow> c)"

text \<open>\<open>s.upper()\<close>, \<open>s.capitalize()\<close>, \<open>s.replace(a, b)\<close> for one-character \<open>a\<close> and \<open>b\<close>,
  \<open>s.split(sep)\<close> for a one-character separator.\<close>

definition upper :: "string \<Rightarrow> string" where
  "upper s = map upper_char s"

definition capitalize :: "string \<Rightarrow> string" where
  "capitalize s = (case s of [] \<Rightarrow> [] | c # cs \<Rightarrow> upper_char c # map lower_char cs)"

definition replace_char :: "char \<Rightarrow> char \<Rightarrow> string \<Rightarrow> string" where
  "replace_char a b s = map (\<lambda>c. if c = a then b else c) s"

fun split_on :: "char \<Rightarrow> string \<Rightarrow> string list" where
  "split_on sep [] = [[]]"
| "split_on sep (c # cs) =
     (if c = sep then [] # split_on sep cs
      else (case split_on sep cs of [] \<Rightarrow> [[c]] | p # ps \<Rightarrow> (c # p) # ps))"

text \<open>
  \<open>repr\<close> of a string: single quotes unless the string holds a single and no double
  quote; the backslash, the quote in use and the control characters are escaped.
\<close>

definition escape_char :: "char \<Rightarrow> char \<Rightarrow> string" where
  "escape_char q c =
     (if c = bsl then [bsl, bsl]
      else if c = q then [bsl, q]
      else if c = CHR 0x0A then [bsl, CHR ''n'']
      else if c = CHR 0x0D then [bsl, CHR ''r'']
      else if c = CHR 0x09 then [bsl, CHR ''t'']
      else if (of_char c :: nat) < 32 \<or> (of_char c :: nat) = 127
        then [bsl, CHR ''x'', digit_char (of_char c div 16), digit_char (of_char c mod 16)]
      else [c])"

definition repr_str :: "string \<Rightarrow> string" where
  "repr_str s =
     (let q = (if CHR 0x27 \<in> set s \<and> CHR 0x22 \<notin> set s then CHR 0x22 else CHR 0x27)
      in [q] @ concat (map (escape_char q) s) @ [q])"

fun join :: "string \<Rightarrow> string list \<Rightarrow> string" where
  "join sep [] = []"
| "join sep [x] = x"
| "join sep (x # y # zs) = x @ sep @ join sep (y # zs)"

function py_repr :: "pyval \<Rightarrow> string" where
  "py_repr PNone = ''None''"
| "py_repr (PBool b) = (if b then ''True'' else ''False'')"
| "py_repr (PInt i) = show_int i"
| "py_repr (PStr s) = repr_str s"
| "py_repr (PList xs) = ''['' @ join '', '' (map py_repr xs) @ '']''"
| "py_repr (PDict d) =
     ''{'' @ join '', '' (map (\<lambda>(k, v). py_repr k @ '': '' @ py_repr v) d) @ ''}''"
  by pat_completeness auto
termination
proof (relation "measure size")
  show "wf (measure size)" by simp
next
  fix xs :: "pyval list" and x
  assume "x \<in> set xs"
  then have "size x < Suc (size_list size xs)" by (induction xs) auto
  then show "(x, PList xs) \<in> measure size" by simp
next
  fix d :: "(pyval \<times> pyval) list" and z :: "pyval \<times> pyval" and k v
  assume "z \<in> set d" and "(k, v) = z"
  then have "(k, v) \<in> set d" by simp
  then have "size k < Suc (size_list (size_prod size size) d)" by (induction d) auto
  then show "(k, PDict d) \<in> measure size" by simp
next
  fix d :: "(pyval \<times> pyval) list" and z :: "pyval \<times> pyval" and k v
  assume "z \<in> set d" and "(k, v) = z"
  then have "(k, v) \<in> set d" by simp
  then have "size v < Suc (size_list (size_prod size size) d)" by (induction d) auto
  then show "(v, PDict d) \<in> measure size" by simp
qed

text \<open>The text an f-string puts in for a value: a string as it is, anything else by \<open>repr\<close>.\<close>

definition py_str :: "pyval \<Rightarrow> string" where
  "py_str v = (case v of PStr s \<Rightarrow> s | _ \<Rightarrow> py_repr v)"

text \<open>String methods called on a value that may not be a string raise AttributeError.\<close>

definition str_of :: "pyval \<Rightarrow> py_error + string" where
  "str_of v = (case v of PStr s \<Rightarrow> Inr s | _ \<Rightarrow> Inl AttributeError)"

text \<open>A dictionary literal; the keys of every literal in the source are string constants.\<close>

definition pdict :: "(string \<times> pyval) list \<Rightarrow> pyval" where
  "pdict items = PDict (map (\<lambda>(k, v). (PStr k, v)) items)"

section \<open>The AsyncAPI 3.0 generator (asynapi_generator.py)\<close>

text \<open>
  What a run of the interpreter fixes and the source does not: the clock, and the order in
  which a set is iterated (the hashes of strings are salted per process). \<open>set_order\<close>
  is applied to the distinct elements of a set, in the order they were added.
\<close>

record runtime =
  utcnow_iso :: string
  set_order :: "pyval list \<Rightarrow> pyval list"

text \<open>The elements of \<open>set(xs)\<close>: of equal values the one added first stays.\<close>

fun set_elements :: "pyval list \<Rightarrow> pyval list \<Rightarrow> pyval list" where
  "set_elements acc [] = acc"
| "set_elements acc (x # xs) =
     (if list_ex (\<lambda>y. scalar_eq y x) acc then set_elements acc xs
      else set_elements (acc @ [x]) xs)"

text \<open>\<open>list(set(xs))\<close>; TypeError when an element cannot be hashed.\<close>

definition list_of_set :: "runtime \<Rightarrow> pyval list \<Rightarrow> py_error + pyval list" where
  "list_of_set rt xs =
     (if list_all hashable xs then Inr (set_order rt (set_elements [] xs)) else Inl TypeError)"

definition generate_info ::
  "runtime \<Rightarrow> string \<Rightarrow> (pyval \<times> pyval) list list \<Rightarrow> string \<Rightarrow> py_error + pyval" where
  "generate_info rt service_name events version =
     and_then (list_of_set rt (map (\<lambda>e. event_get e ''repository'' (PStr '''')) events)) (\<lambda>repos.
       Inr (pdict
         [(''title'', PStr (service_name @ '' Event API'')),
          (''version'', PStr version),
          (''description'',
             PStr (''Asynchronous event API for '' @ service_name @ ''. ''
                   @ ''This specification was auto-generated from code analysis.'')),
          (''x-generated'', pdict
             [(''timestamp'', PStr (utcnow_iso rt @ ''Z'')),
              (''eventCount'', PInt (int (length events))),
              (''repositories'', PList repos)])]))"

definition protocol_map :: "(pyval \<times> string) list" where
  "protocol_map =
     [(PStr ''kafka'', ''kafka''),
      (PStr ''rabbitmq'', ''amqp''),
      (PStr ''aws-sns'', ''sns''),
      (PStr ''aws-sqs'', ''sqs''),
      (PStr ''aws-eventbridge'', ''eventbridge''),
      (PStr ''ibm-mq'', ''ibmmq'')]"

text \<open>\<open>protocol_map.get(broker, 'unknown')\<close>: the lookup hashes the broker.\<close>

definition get_protocol :: "pyval \<Rightarrow> py_error + string" where
  "get_protocol broker' =
     (if \<not> hashable broker' then Inl TypeError
      else Inr (case dict_lookup protocol_map broker' of Some p \<Rightarrow> p | None \<Rightarrow> ''unknown''))"

text \<open>\<open>_get_server_config\<close>; \<open>broker.upper()\<close> raises when the broker is not a string.\<close>

definition get_server_config :: "pyval \<Rightarrow> (pyval \<times> pyval) list list \<Rightarrow> py_error + pyval" where
  "get_server_config broker' events =
     and_then (get_protocol broker') (\<lambda>protocol.
     and_then (str_of broker') (\<lambda>b.
       let config =
             [(''host'', PStr ''{environment}.example.com''),
              (''protocol'', PStr protocol),
              (''description'', PStr (upper b @ '' message broker'')),
              (''variables'', pdict
                 [(''environment'', pdict
                    [(''default'', PStr ''dev''),
                     (''enum'', PList [PStr ''dev'', PStr ''staging'', PStr ''prod''])])])]
       in
         if b = ''kafka'' then
           Inr (pdict (config @
             [(''bindings'', pdict
                [(''kafka'', pdict
                   [(''schemaRegistryUrl'', PStr ''https://schema-registry.example.com'')])])]))
         else if b = ''rabbitmq'' then
           Inr (pdict (config @
             [(''bindings'', pdict [(''amqp'', pdict [(''exchange'', PStr ''default'')])])]))
         else if prefix ''aws-'' b then
           Inr (pdict (config @
             [(''bindings'', pdict [(''aws'', pdict [(''region'', PStr ''us-east-1'')])])]))
         else Inr (pdict config)))"

definition generate_servers :: "(pyval \<times> pyval) list list \<Rightarrow> py_error + pyval" where
  "generate_servers events =
     and_then (group_events (\<lambda>e. event_get e ''broker'' (PStr ''unknown'')) events []) (\<lambda>brokers.
     and_then (map_res (\<lambda>(broker', broker_events).
                 and_then (get_server_config broker' broker_events) (\<lambda>server_config.
                   Inr (broker', server_config))) brokers) (\<lambda>items.
       Inr (PDict (dict_of_items items))))"

text \<open>\<open>_sanitize_channel_id\<close>; \<open>channel_name.replace\<close> raises when the name is not a string.\<close>

definition sanitize_channel_id :: "pyval \<Rightarrow> py_error + string" where
  "sanitize_channel_id channel_name =
     and_then (str_of channel_name) (\<lambda>s.
       Inr (replace_char (CHR '':'') (CHR ''_'')
             (replace_char (CHR ''.'') (CHR ''_'')
               (replace_char (CHR ''/'') (CHR ''_'') s))))"

definition create_channel :: "pyval \<Rightarrow> (pyval \<times> pyval) list list \<Rightarrow> py_error + pyval" where
  "create_channel channel_name events =
     (case events of
        [] \<Rightarrow> Inl IndexError
      | first_event # _ \<Rightarrow>
          let broker' = event_get first_event ''broker'' (PStr ''unknown'');
              channel_type = event_get first_event ''channel_type'' (PStr ''topic'')
          in
          and_then (map_res (\<lambda>idx.
                      and_then (sanitize_channel_id channel_name) (\<lambda>cid.
                        let message_id = cid @ ''_message_'' @ show_nat idx in
                        Inr (PStr message_id,
                             pdict [(''$ref'', PStr (''#/components/messages/'' @ message_id))])))
                    [0 ..< length events]) (\<lambda>message_items.
          let channel =
                [(''address'', channel_name),
                 (''description'', PStr (''Channel: '' @ py_str channel_name)),
                 (''messages'', PDict (dict_of_items message_items))]
          in
            if scalar_eq broker' (PStr ''kafka'') then
              Inr (pdict (channel @
                [(''bindings'', pdict
                   [(''kafka'', pdict
                      [(''topic'', channel_name),
                       (''partitions'', PInt 3),
                       (''replicas'', PInt 2)])])]))
            else if scalar_eq broker' (PStr ''rabbitmq'') then
              and_then (str_of channel_name) (\<lambda>s.
                let parts = split_on (CHR ''/'') s in
                Inr (pdict (channel @
                  [(''bindings'', pdict
                     [(''amqp'', pdict
                        [(''is'', channel_type),
                         (''exchange'', pdict
                            [(''name'', PStr (if length parts > 1 then parts ! 0 else ''default'')),
                             (''type'', PStr ''topic'')]),
                         (''queue'', pdict
                            [(''name'', PStr (if length parts > 1 then parts ! 1 else s))])])])])))
            else Inr (pdict channel)))"

definition generate_channels :: "(pyval \<times> pyval) list list \<Rightarrow> py_error + pyval" where
  "generate_channels events =
     and_then (group_events (\<lambda>e. event_get e ''channel_name'' (PStr ''unknown'')) events [])
       (\<lambda>channel_groups.
     and_then (map_res (\<lambda>(channel_name, channel_events).
                 and_then (sanitize_channel_id channel_name) (\<lambda>channel_id.
                 and_then (create_channel channel_name channel_events) (\<lambda>channel.
                   Inr (PStr channel_id, channel)))) channel_groups) (\<lambda>items.
       Inr (PDict (dict_of_items items))))"

text \<open>
  The first loop of \<open>_generate_operations\<close>: per channel id the channel name and the
  operation of the first event with that id, and the events with that id.
\<close>

fun operation_groups ::
  "(pyval \<times> pyval) list list \<Rightarrow> (pyval \<times> pyval \<times> pyval \<times> (pyval \<times> pyval) list list) list
    \<Rightarrow> py_error + (pyval \<times> pyval \<times> pyval \<times> (pyval \<times> pyval) list list) list" where
  "operation_groups [] channel_operations = Inr channel_operations"
| "operation_groups (e # es) channel_operations =
     (let channel_name = event_get e ''channel_name'' (PStr ''unknown'') in
      and_then (sanitize_channel_id channel_name) (\<lambda>channel_id.
        let operation = event_get e ''operation'' (PStr ''send'') in
        operation_groups es
          (case dict_lookup channel_operations (PStr channel_id) of
             None \<Rightarrow> dict_set channel_operations (PStr channel_id) (channel_name, operation, [e])
           | Some (c, op, evs) \<Rightarrow>
               dict_set channel_operations (PStr channel_id) (c, op, evs @ [e]))))"

definition generate_operations :: "(pyval \<times> pyval) list list \<Rightarrow> py_error + pyval" where
  "generate_operations events =
     and_then (operation_groups events []) (\<lambda>channel_operations.
     and_then (map_res (\<lambda>(channel_id, channel, operation, evs).
                 and_then (str_of operation) (\<lambda>op.
                   Inr (PStr (py_str operation @ ''_'' @ py_str channel_id),
                        pdict
                          [(''action'', operation),
                           (''channel'', pdict [(''$ref'', PStr (''#/channels/'' @ py_str channel_id))]),
                           (''description'',
                              PStr (capitalize op @ '' messages to '' @ py_str channel)),
                           (''messages'', PList (map (\<lambda>idx.
                              pdict [(''$ref'',
                                PStr (''#/channels/'' @ py_str channel_id @ ''/messages/''
                                      @ py_str channel_id @ ''_message_'' @ show_nat idx))])
                              [0 ..< length evs]))]))) channel_operations) (\<lambda>items.
       Inr (PDict (dict_of_items items))))"

definition create_schema :: "(pyval \<times> pyval) list \<Rightarrow> pyval" where
  "create_schema event =
     (let message_type = event_get event ''message_type'' (PStr ''Unknown'') in
      pdict
        [(''type'', PStr ''object''),
         (''title'', message_type),
         (''description'',
            PStr (''Schema for '' @ py_str message_type @ '' (to be enriched with actual fields)'')),
         (''properties'', pdict
            [(''eventId'', pdict
                [(''type'', PStr ''string''),
                 (''description'', PStr ''Unique event identifier''),
                 (''format'', PStr ''uuid'')]),
             (''timestamp'', pdict
                [(''type'', PStr ''string''),
                 (''description'', PStr ''Event timestamp''),
                 (''format'', PStr ''date-time'')]),
             (''eventType'', pdict
                [(''type'', PStr ''string''),
                 (''description'', PStr ''Type of event''),
                 (''const'', message_type)]),
             (''payload'', pdict
                [(''type'', PStr ''object''),
                 (''description'', PStr ''Event-specific payload (schema to be defined)''),
                 (''additionalProperties'', PBool True)])]),
         (''required'', PList [PStr ''eventId'', PStr ''timestamp'', PStr ''eventType'']),
         (''x-note'',
            PStr (''This is a template schema. ''
                  @ ''Actual schema should be enriched with real payload fields.''))])"

text \<open>
  One round of the loop of \<open>_generate_components\<close>: the message id, the message, the
  schema id and the schema of an event. \<open>e.get('channel_name')\<close> defaults to \<open>None\<close>.
\<close>

definition component_of ::
  "(pyval \<times> pyval) list list \<Rightarrow> (pyval \<times> pyval) list
    \<Rightarrow> py_error + (pyval \<times> pyval) \<times> (pyval \<times> pyval)" where
  "component_of events event =
     (let channel_name = event_get event ''channel_name'' (PStr ''unknown'') in
      and_then (sanitize_channel_id channel_name) (\<lambda>channel_id.
        let message_type = event_get event ''message_type'' (PStr ''Unknown'') in
        and_then (py_index
                    (map PDict (filter (\<lambda>e. py_eq (event_get e ''channel_name'' PNone) channel_name)
                                  events))
                    (PDict event)) (\<lambda>event_idx.
          let message_id = channel_id @ ''_message_'' @ show_nat event_idx;
              schema_id = message_id @ ''_payload''
          in
          Inr ((PStr message_id,
                pdict
                  [(''name'', message_type),
                   (''title'', PStr (py_str message_type @ '' Event'')),
                   (''summary'', PStr (''Message published to '' @ py_str channel_name)),
                   (''contentType'', PStr ''application/json''),
                   (''payload'', pdict [(''$ref'', PStr (''#/components/schemas/'' @ schema_id))]),
                   (''x-source'', pdict
                      [(''repository'', event_get event ''repository'' (PStr '''')),
                       (''filePath'', event_get event ''file_path'' (PStr '''')),
                       (''lineNumber'', event_get event ''line_number'' (PInt 0))])]),
               (PStr schema_id, create_schema event)))))"

definition generate_components :: "(pyval \<times> pyval) list list \<Rightarrow> py_error + pyval" where
  "generate_components events =
     and_then (map_res (component_of events) events) (\<lambda>items.
       Inr (pdict
         [(''messages'', PDict (dict_of_items (map fst items))),
          (''schemas'', PDict (dict_of_items (map snd items)))]))"

definition generate_spec ::
  "runtime \<Rightarrow> string \<Rightarrow> (pyval \<times> pyval) list list \<Rightarrow> string \<Rightarrow> py_error + pyval" where
  "generate_spec rt service_name events version =
     and_then (generate_info rt service_name events version) (\<lambda>info.
     and_then (generate_servers events) (\<lambda>servers.
     and_then (generate_channels events) (\<lambda>channels.
     and_then (generate_operations events) (\<lambda>operations.
     and_then (generate_components events) (\<lambda>components.
       Inr (pdict
         [(''asyncapi'', PStr ''3.0.0''),
          (''info'', info),
          (''servers'', servers),
          (''channels'', channels),
          (''operations'', operations),
          (''components'', components)]))))))"

section \<open>The AsyncAPI 2.6 generator (generator.py)\<close>

definition create_base_spec :: "(string \<times> pyval) list" where
  "create_base_spec =
     [(''asyncapi'', PStr ''2.6.0''),
      (''info'', pdict
         [(''title'', PStr ''Discovered AsyncAPI Specification''),
          (''version'', PStr ''1.0.0''),
          (''description'',
             PStr ''Auto-generated AsyncAPI specification from repository scanning'')]),
      (''servers'', pdict
         [(''development'', pdict
            [(''url'', PStr ''localhost''),
             (''protocol'', PStr ''amqp''),
             (''description'', PStr ''Development server'')])])]"

text \<open>\<open>_create_channel(event)\<close> of generator.py, for an event that is a dictionary.\<close>

definition create_channel_of_event :: "(pyval \<times> pyval) list \<Rightarrow> pyval" where
  "create_channel_of_event event =
     pdict
       [(''description'',
           PStr (''Channel for '' @ py_str (event_get event ''name'' (PStr ''unknown'')) @ '' event'')),
        (''subscribe'', pdict
           [(''summary'',
               PStr (''Subscribe to '' @ py_str (event_get event ''name'' (PStr ''unknown''))
                     @ '' events'')),
            (''message'', pdict
               [(''name'', event_get event ''name'' (PStr ''unknown'')),
                (''title'', event_get event ''name'' (PStr ''Unknown Event'')),
                (''contentType'', PStr ''application/json''),
                (''payload'', pdict
                   [(''type'', PStr ''object''),
                    (''properties'', pdict
                       [(''eventId'', pdict
                           [(''type'', PStr ''string''),
                            (''description'', PStr ''Unique event identifier'')]),
                        (''timestamp'', pdict
                           [(''type'', PStr ''string''),
                            (''format'', PStr ''date-time''),
                            (''description'', PStr ''Event timestamp'')]),
                        (''data'', pdict
                           [(''type'', PStr ''object''),
                            (''description'', PStr ''Event payload data'')])])])])])]"

text \<open>
  The loop of \<open>generate\<close>: an event is whatever the \<open>events\<close> list holds;
  \<open>event.get\<close> raises on anything but a dictionary, and \<open>channel_name not in channels\<close>
  hashes the name.
\<close>

fun generate_loop ::
  "pyval list \<Rightarrow> (pyval \<times> pyval) list \<Rightarrow> py_error + (pyval \<times> pyval) list" where
  "generate_loop [] channels = Inr channels"
| "generate_loop (event # rest) channels =
     and_then (py_get event ''name'' (PStr ''unknown'')) (\<lambda>channel_name.
       if \<not> hashable channel_name then Inl TypeError
       else
         (case dict_lookup channels channel_name of
            Some c \<Rightarrow> generate_loop rest channels
          | None \<Rightarrow>
              (case event of
                 PDict ev \<Rightarrow>
                   generate_loop rest (dict_set channels channel_name (create_channel_of_event ev))
               | _ \<Rightarrow> Inl AttributeError)))"

text \<open>
  \<open>generate\<close>, up to the document it hands to \<open>yaml.dump\<close>, whose text it returns.
\<close>

definition generate :: "(pyval \<times> pyval) list \<Rightarrow> py_error + pyval" where
  "generate producers =
     and_then (py_iter (event_get producers ''events'' (PList []))) (\<lambda>events.
     and_then (generate_loop events []) (\<lambda>channels.
       Inr (pdict (create_base_spec @ [(''channels'', PDict channels)]))))"

section \<open>The catalog manager (catalog_manager.py)\<close>

text \<open>\<open>repo.split('/')[-1] if '/' in repo else repo\<close>\<close>

definition repo_name_of :: "string \<Rightarrow> string" where
  "repo_name_of repo = (if CHR ''/'' \<in> set repo then last (split_on (CHR ''/'') repo) else repo)"

text \<open>The server entry of a broker type; \<open>broker_type.upper()\<close> needs a string.\<close>

definition server_entry :: "pyval \<Rightarrow> py_error + pyval \<times> pyval" where
  "server_entry broker_type =
     and_then (str_of broker_type) (\<lambda>b.
       Inr (PStr (py_str broker_type @ ''_server''),
            pdict
              [(''url'', PStr (py_str broker_type @ ''://localhost'')),
               (''protocol'', broker_type),
               (''description'', PStr (upper b @ '' broker''))]))"

definition payload_schema :: pyval where
  "payload_schema =
     pdict
       [(''type'', PStr ''object''),
        (''properties'', pdict
           [(''eventId'', pdict
               [(''type'', PStr ''string''),
                (''description'', PStr ''Unique event identifier'')]),
            (''timestamp'', pdict
               [(''type'', PStr ''string''),
                (''format'', PStr ''date-time''),
                (''description'', PStr ''Event timestamp'')]),
            (''data'', pdict
               [(''type'', PStr ''object''),
                (''description'', PStr ''Event payload data'')])])]"

text \<open>
  One round of the second loop of \<open>_create_specification\<close>: the channel, the message and
  the schema of an event. \<open>event['name']\<close> and \<open>event['file']\<close> raise KeyError on a
  record without the key; the channel is stored under the name, which is hashed.
\<close>

definition entries_of ::
  "(pyval \<times> pyval) list \<Rightarrow> py_error + (pyval \<times> pyval) \<times> (pyval \<times> pyval) \<times> (pyval \<times> pyval)" where
  "entries_of event =
     and_then (event_item event ''name'') (\<lambda>channel_name.
       let message_name = py_str channel_name @ ''_message'';
           channel =
             pdict
               [(''description'', PStr (''Event channel for '' @ py_str channel_name)),
                (''subscribe'', pdict
                   [(''operationId'', PStr (''subscribe_'' @ py_str channel_name)),
                    (''summary'', PStr (''Subscribe to '' @ py_str channel_name @ '' events'')),
                    (''message'', pdict
                       [(''$ref'', PStr (''#/components/messages/'' @ message_name))])])]
       in
       if \<not> hashable channel_name then Inl TypeError
       else
         and_then (event_item event ''file'') (\<lambda>file_name.
           Inr ((channel_name, channel),
                (PStr message_name,
                 pdict
                   [(''name'', channel_name),
                    (''title'', PStr (py_str channel_name @ '' Event'')),
                    (''summary'', PStr (''Event produced from '' @ py_str file_name)),
                    (''contentType'', PStr ''application/json''),
                    (''payload'', pdict
                       [(''$ref'',
                         PStr (''#/components/schemas/'' @ py_str channel_name @ ''_payload''))])]),
                (PStr (py_str channel_name @ ''_payload''), payload_schema))))"

definition create_specification ::
  "string \<Rightarrow> (pyval \<times> pyval) list list \<Rightarrow> py_error + pyval" where
  "create_specification repo events =
     and_then (group_events (\<lambda>e. event_get e ''broker'' (PStr ''generic'')) events []) (\<lambda>brokers.
     and_then (map_res (\<lambda>(broker_type, broker_events). server_entry broker_type) brokers)
       (\<lambda>server_items.
     and_then (map_res entries_of events) (\<lambda>entries.
       Inr (pdict
         [(''asyncapi'', PStr ''2.6.0''),
          (''info'', pdict
             [(''title'', PStr (repo_name_of repo @ '' Event API'')),
              (''version'', PStr ''1.0.0''),
              (''description'',
                 PStr (''AsyncAPI specification for event producers in '' @ repo)),
              (''contact'', pdict
                 [(''name'', PStr ''AsyncAPI Discovery Tool''),
                  (''url'',
                   PStr ''https://github.com/ai-digital-architect/asyncapi_discovery'')])]),
          (''servers'', PDict (dict_of_items server_items)),
          (''channels'', PDict (dict_of_items (map fst entries))),
          (''components'', pdict
             [(''messages'', PDict (dict_of_items (map (\<lambda>x. fst (snd x)) entries))),
              (''schemas'', PDict (dict_of_items (map (\<lambda>x. snd (snd x)) entries)))])]))))"

text \<open>
  The dictionary \<open>_parse_event\<close> builds, which \<open>main\<close> hands to the catalog manager.
\<close>

definition event_dict :: "event \<Rightarrow> (pyval \<times> pyval) list" where
  "event_dict e =
     [(PStr ''name'', PStr (name e)),
      (PStr ''broker'', PStr (broker e)),
      (PStr ''file'', file' e),
      (PStr ''repository'', repository e),
      (PStr ''lines'', PList (lines e)),
      (PStr ''source_code'', PList (source_code e))]"

section \<open>Notions and sample inputs the properties are stated with\<close>

subsection \<open>Event detection\<close>

text \<open>
  A well-formed line match is a dictionary whose \<open>line\<close>, when present, is a string;
  \<open>line_text\<close> is that string (the empty string when the key is absent, as \<open>get\<close>
  defaults it).
\<close>

definition is_line_match :: "pyval \<Rightarrow> bool" where
  "is_line_match lm =
     (case py_get lm ''line'' (PStr '''') of Inr (PStr s) \<Rightarrow> True | _ \<Rightarrow> False)"

definition line_text :: "pyval \<Rightarrow> string" where
  "line_text lm =
     (case py_get lm ''line'' (PStr '''') of Inr (PStr s) \<Rightarrow> s | _ \<Rightarrow> [])"

text \<open>The quoted literals of the matched lines, in encounter order.\<close>

definition quoted_literals :: "pyval list \<Rightarrow> string list" where
  "quoted_literals lms = concat (map (\<lambda>lm. findall_quoted (line_text lm)) lms)"

text \<open>
  The shape of a search result. A result has the wrong shape when it is not a dictionary,
  when its \<open>file\<close> or its \<open>repository\<close> is present and not a dictionary, or when its
  \<open>lineMatches\<close> is a non-empty value that cannot be iterated, holds an item that is not
  a dictionary, or holds among the lines that are scanned for a name one whose \<open>line\<close> is
  not a string. The lines scanned are those up to and including the first that holds a
  qualifying literal. A key that is absent is not a wrong shape: \<open>get\<close> defaults it.
\<close>

definition is_dict :: "pyval \<Rightarrow> bool" where
  "is_dict v = (case v of PDict d \<Rightarrow> True | _ \<Rightarrow> False)"

fun scanned :: "pyval list \<Rightarrow> pyval list" where
  "scanned [] = []"
| "scanned (x # xs) =
     (if find reasonable (findall_quoted (line_text x)) = None then x # scanned xs else [x])"

definition wrong_lines :: "pyval \<Rightarrow> bool" where
  "wrong_lines line_matches =
     (truthy line_matches \<and>
      (case py_iter line_matches of
         Inl e \<Rightarrow> True
       | Inr xs \<Rightarrow> \<not> list_all is_dict xs \<or> \<not> list_all is_line_match (scanned xs)))"

definition wrong_shape :: "pyval \<Rightarrow> bool" where
  "wrong_shape match =
     (case match of
        PDict d \<Rightarrow>
          \<not> is_dict (event_get d ''file'' (PDict []))
          \<or> \<not> is_dict (event_get d ''repository'' (PDict []))
          \<or> wrong_lines (event_get d ''lineMatches'' (PList []))
      | _ \<Rightarrow> True)"

subsection \<open>Generated documents\<close>

text \<open>Reading a document: the keys of a section, and the entry under a string key.\<close>

definition dict_keys :: "pyval \<Rightarrow> pyval list" where
  "dict_keys v = (case v of PDict d \<Rightarrow> map fst d | _ \<Rightarrow> [])"

definition item :: "pyval \<Rightarrow> string \<Rightarrow> pyval" where
  "item v k =
     (case v of
        PDict d \<Rightarrow> (case dict_lookup d (PStr k) of Some x \<Rightarrow> x | None \<Rightarrow> PNone)
      | _ \<Rightarrow> PNone)"

text \<open>Replacing what stands at a path of string keys in a document.\<close>

fun update_path :: "string list \<Rightarrow> pyval \<Rightarrow> pyval \<Rightarrow> pyval" where
  "update_path [] new v = new"
| "update_path (k # ks) new v =
     (case v of
        PDict d \<Rightarrow> PDict (map (\<lambda>(k', x). if k' = PStr k then (k', update_path ks new x) else (k', x)) d)
      | _ \<Rightarrow> v)"

text \<open>A document with its generation timestamp blanked out.\<close>

definition without_timestamp :: "pyval \<Rightarrow> pyval" where
  "without_timestamp doc = update_path [''info'', ''x-generated'', ''timestamp''] PNone doc"

text \<open>A document with its generation timestamp and its list of repositories blanked out.\<close>

definition without_run_fields :: "pyval \<Rightarrow> pyval" where
  "without_run_fields doc =
     update_path [''info'', ''x-generated'', ''repositories''] PNone (without_timestamp doc)"

definition repositories_of :: "pyval \<Rightarrow> pyval list" where
  "repositories_of doc =
     (case item (item (item doc ''info'') ''x-generated'') ''repositories'' of
        PList rs \<Rightarrow> rs | _ \<Rightarrow> [])"

text \<open>
  What is known of the iteration order of a set: the elements come out, each once, in
  some order.
\<close>

definition valid_set_order :: "runtime \<Rightarrow> bool" where
  "valid_set_order rt = (\<forall>xs. mset (set_order rt xs) = mset xs)"

subsection \<open>Sample search results\<close>

text \<open>
  Search results of the shape the client returns (a file match with its line matches),
  and the two lines of the scenario of the specification.
\<close>

definition dq :: char where
  "dq = CHR 0x22"

definition sq :: char where
  "sq = CHR 0x27"

definition line_match :: "int \<Rightarrow> string \<Rightarrow> pyval" where
  "line_match n s = PDict [(PStr ''lineNumber'', PInt n), (PStr ''line'', PStr s)]"

definition file_match :: "string \<Rightarrow> string \<Rightarrow> pyval list \<Rightarrow> pyval" where
  "file_match path repo lms =
     PDict [(PStr ''file'', PDict [(PStr ''path'', PStr path)]),
            (PStr ''repository'', PDict [(PStr ''name'', PStr repo)]),
            (PStr ''lineMatches'', PList lms)]"

definition rabbit_line :: string where
  "rabbit_line =
     ''channel.basic_publish(exchange='' @ [dq] @ ''orders'' @ [dq]
       @ '', routing_key='' @ [dq] @ ''order.placed'' @ [dq] @ '', ...)''"

definition kafka_line :: string where
  "kafka_line = ''kafkaTemplate.send('' @ [dq] @ ''payment.processed'' @ [dq] @ '', ...)''"

definition rabbit_match :: pyval where
  "rabbit_match = file_match ''publisher.py'' ''shop'' [line_match 10 rabbit_line]"

definition kafka_match :: pyval where
  "kafka_match = file_match ''Payments.java'' ''shop'' [line_match 20 kafka_line]"

text \<open>
  A client that returns the first match for the pattern \<open>channel\.basic_publish\<close>, the
  second for the pattern \<open>\.send\s*\(\<close>, and nothing for any other query.
\<close>

definition scenario_search :: "string \<Rightarrow> string \<Rightarrow> pyval list" where
  "scenario_search query repo =
     (if query = ''channel'' @ [bsl] @ ''.basic_publish'' then [rabbit_match]
      else if query = [bsl] @ ''.send'' @ [bsl] @ ''s*'' @ [bsl] @ ''('' then [kafka_match]
      else [])"

subsection \<open>Sample event records\<close>

text \<open>
  Two records with the key (\<open>user.created\<close>, \<open>generic\<close>) found in different files, and a
  record of the same name under another broker.
\<close>

definition ev_first :: event where
  "ev_first = \<lparr> name = ''user.created'', broker = ''generic'', file' = PStr ''a.py'',
                 repository = PStr ''shop'', lines = [PInt 1],
                 source_code = [PStr ''emit(user.created)''] \<rparr>"

definition ev_later :: event where
  "ev_later = \<lparr> name = ''user.created'', broker = ''generic'', file' = PStr ''b.py'',
                 repository = PStr ''shop'', lines = [PInt 7, PInt 9],
                 source_code = [PStr ''publish(user.created)'', PStr ''again''] \<rparr>"

definition ev_kafka :: event where
  "ev_kafka = \<lparr> name = ''user.created'', broker = ''kafka'', file' = PStr ''c.py'',
                 repository = PStr ''shop'', lines = [PInt 3],
                 source_code = [PStr ''send(user.created)''] \<rparr>"

text \<open>A result whose \<open>file\<close> is a string instead of a dictionary.\<close>

definition bad_match :: pyval where
  "bad_match = PDict [(PStr ''file'', PStr ''publisher.py''),
                      (PStr ''lineMatches'', PList [line_match 1 kafka_line])]"

text \<open>A result with line matches and neither \<open>file\<close> nor \<open>repository\<close>.\<close>

definition bare_fields :: "(pyval \<times> pyval) list" where
  "bare_fields = [(PStr ''lineMatches'', PList [line_match 20 kafka_line])]"

definition bare_match :: pyval where
  "bare_match = PDict bare_fields"

subsection \<open>Sample runs and event lists for the generators\<close>

definition run_a :: runtime where
  "run_a = \<lparr> utcnow_iso = ''2024-05-01T10:00:00'', set_order = (\<lambda>xs. xs) \<rparr>"

definition run_b :: runtime where
  "run_b = \<lparr> utcnow_iso = ''2024-05-01T10:00:00'', set_order = rev \<rparr>"

text \<open>A record of the shape the 3.0 generator reads.\<close>

definition channel_record :: "string \<Rightarrow> string \<Rightarrow> string \<Rightarrow> (pyval \<times> pyval) list" where
  "channel_record c b r =
     [(PStr ''channel_name'', PStr c), (PStr ''broker'', PStr b), (PStr ''repository'', PStr r)]"

definition order_record :: "(pyval \<times> pyval) list" where
  "order_record = channel_record ''orders'' ''kafka'' ''shop''"

definition typed_order_record :: "(pyval \<times> pyval) list" where
  "typed_order_record = order_record @ [(PStr ''message_type'', PStr ''OrderPlaced'')]"

text \<open>A record without the key \<open>name\<close>.\<close>

definition nameless_record :: "(pyval \<times> pyval) list" where
  "nameless_record = [(PStr ''broker'', PStr ''kafka''), (PStr ''file'', PStr ''a.py'')]"

section \<open>Properties of event detection\<close>

subsection \<open>The quoted-literal scan\<close>

lemma quote_not_name: "is_quote c \<Longrightarrow> \<not> is_name_char c"
  by (auto simp: is_quote_def is_name_char_def)

lemma findall_no_quote: "\<forall>c\<in>set cs. \<not> is_quote c \<Longrightarrow> findall_quoted cs = []"
  by (induction cs) auto

lemma findall_token:
  assumes "is_quote q1" "is_quote q2" "tok \<noteq> []" "\<forall>c\<in>set tok. is_name_char c"
  shows "findall_quoted (q1 # tok @ q2 # post) = tok # findall_quoted post"
proof -
  have t: "takeWhile is_name_char (tok @ q2 # post) = tok"
    using assms by (simp add: quote_not_name)
  have d: "dropWhile is_name_char (tok @ q2 # post) = q2 # post"
    using assms by (simp add: quote_not_name)
  show ?thesis using assms t d by simp
qed

lemma while_append:
  "dropWhile P xs = d # ds \<Longrightarrow>
   takeWhile P (xs @ r) = takeWhile P xs \<and> dropWhile P (xs @ r) = d # ds @ r"
  by (induction xs) (auto split: if_splits)

text \<open>
  When appending a quote to a prefix completes no literal in it, the scan of the prefix
  ends before that quote: what follows is scanned on its own.
\<close>

lemma findall_append_quote:
  "is_quote q \<Longrightarrow> findall_quoted (pre @ [q]) = findall_quoted pre \<Longrightarrow>
   findall_quoted (pre @ q # rest) = findall_quoted pre @ findall_quoted (q # rest)"
proof (induction "length pre" arbitrary: pre rule: less_induct)
  case less
  note qq = less.prems(1) and heq = less.prems(2)
  show ?case
  proof (cases pre)
    case Nil
    then show ?thesis by simp
  next
    case (Cons c cs)
    note pre = Cons
    have IH: "\<And>p. length p \<le> length cs \<Longrightarrow> findall_quoted (p @ [q]) = findall_quoted p
                \<Longrightarrow> findall_quoted (p @ q # rest) = findall_quoted p @ findall_quoted (q # rest)"
      using less.hyps[OF _ qq] pre by simp
    have "findall_quoted ((c # cs) @ q # rest) = findall_quoted (c # cs) @ findall_quoted (q # rest)"
    proof (cases "is_quote c")
      case False
      then show ?thesis using IH[of cs] heq pre by simp
    next
      case True
      show ?thesis
      proof (cases "dropWhile is_name_char cs")
        case Nil
        then have alln: "\<forall>x\<in>set cs. is_name_char x"
          by simp
        have nq: "\<forall>x\<in>set cs. \<not> is_quote x" using alln quote_not_name by blast
        have fcs: "findall_quoted cs = []" using nq by (rule findall_no_quote)
        have tw: "\<And>r. takeWhile is_name_char (cs @ q # r) = cs"
          using alln qq by (simp add: quote_not_name)
        have dw: "\<And>r. dropWhile is_name_char (cs @ q # r) = q # r"
          using alln qq by (simp add: quote_not_name)
        show ?thesis
        proof (cases "cs = []")
          case True
          then show ?thesis using \<open>is_quote c\<close> qq by (simp add: quote_not_name)
        next
          case False
          have "findall_quoted ((c # cs) @ [q]) = [cs]"
            using \<open>is_quote c\<close> False tw[of "[]"] dw[of "[]"] qq by simp
          moreover have "findall_quoted (c # cs) = []"
            using \<open>is_quote c\<close> fcs by (simp add: Nil del: dropWhile_eq_Nil_conv)
          ultimately show ?thesis using heq[unfolded pre] by simp
        qed
      next
        case (Cons d ds)
        have ld: "length ds \<le> length cs"
          using length_dropWhile_le[of is_name_char cs] Cons by simp
        have tw: "\<And>r. takeWhile is_name_char (cs @ r) = takeWhile is_name_char cs"
          using while_append[OF Cons] by blast
        have dw: "\<And>r. dropWhile is_name_char (cs @ r) = d # ds @ r"
          using while_append[OF Cons] by blast
        show ?thesis
        proof (cases "takeWhile is_name_char cs \<noteq> [] \<and> is_quote d")
          case m: True
          have e1: "findall_quoted ((c # cs) @ [q])
                    = takeWhile is_name_char cs # findall_quoted (ds @ [q])"
            using \<open>is_quote c\<close> m tw[of "[q]"] dw[of "[q]"] by simp
          have e2: "findall_quoted (c # cs) = takeWhile is_name_char cs # findall_quoted ds"
            using \<open>is_quote c\<close> m Cons by simp
          have e3: "findall_quoted ((c # cs) @ q # rest)
                    = takeWhile is_name_char cs # findall_quoted (ds @ q # rest)"
            using \<open>is_quote c\<close> m tw[of "q # rest"] dw[of "q # rest"] by simp
          have "findall_quoted (ds @ [q]) = findall_quoted ds"
            using e1 e2 heq[unfolded pre] by simp
          then have "findall_quoted (ds @ q # rest) = findall_quoted ds @ findall_quoted (q # rest)"
            using IH[of ds] ld by simp
          then show ?thesis using e2 e3 by simp
        next
          case m: False
          have e1: "findall_quoted ((c # cs) @ [q]) = findall_quoted (cs @ [q])"
            using \<open>is_quote c\<close> m tw[of "[q]"] dw[of "[q]"] by auto
          have e2: "findall_quoted (c # cs) = findall_quoted cs"
            using \<open>is_quote c\<close> m Cons by auto
          have e3: "findall_quoted ((c # cs) @ q # rest) = findall_quoted (cs @ q # rest)"
            using \<open>is_quote c\<close> m tw[of "q # rest"] dw[of "q # rest"] by auto
          have "findall_quoted (cs @ [q]) = findall_quoted cs"
            using e1 e2 heq[unfolded pre] by simp
          then have "findall_quoted (cs @ q # rest) = findall_quoted cs @ findall_quoted (q # rest)"
            using IH[of cs] by simp
          then show ?thesis using e2 e3 by simp
        qed
      qed
    qed
    then show ?thesis using pre by simp
  qed
qed

subsection \<open>Event name extraction\<close>

lemma find_append:
  "find P (xs @ ys) = (case find P xs of Some x \<Rightarrow> Some x | None \<Rightarrow> find P ys)"
  by (induction xs) auto

lemma extract_loop_first:
  "list_all is_line_match lms \<Longrightarrow>
   extract_loop lms b =
     Inr (case find reasonable (quoted_literals lms) of Some s \<Rightarrow> s | None \<Rightarrow> b @ ''_event'')"
proof (induction lms)
  case Nil
  then show ?case by (simp add: quoted_literals_def)
next
  case (Cons lm lms)
  from Cons.prems obtain s where s: "py_get lm ''line'' (PStr '''') = Inr (PStr s)"
    by (auto simp: is_line_match_def split: sum.splits pyval.splits)
  have lt: "line_text lm = s" using s by (simp add: line_text_def)
  have q: "quoted_literals (lm # lms) = findall_quoted s @ quoted_literals lms"
    by (simp add: quoted_literals_def lt)
  show ?case
  proof (cases "find reasonable (findall_quoted s)")
    case None
    then have "find reasonable (quoted_literals (lm # lms)) = find reasonable (quoted_literals lms)"
      unfolding q by (simp add: find_append)
    then show ?thesis using Cons None s by (simp add: and_then_def)
  next
    case (Some t)
    then have "find reasonable (quoted_literals (lm # lms)) = Some t"
      unfolding q by (simp add: find_append)
    then show ?thesis using Some s by (simp add: and_then_def)
  qed
qed

lemma extract_single_line:
  "extract_event_name (PList [PDict [(PStr ''line'', PStr l)]]) b
     = Inr (case find reasonable (findall_quoted l) of Some s \<Rightarrow> s | None \<Rightarrow> b @ ''_event'')"
proof -
  have "list_all is_line_match [PDict [(PStr ''line'', PStr l)]]"
    by (simp add: is_line_match_def)
  moreover have "quoted_literals [PDict [(PStr ''line'', PStr l)]] = findall_quoted l"
    by (simp add: quoted_literals_def line_text_def)
  ultimately show ?thesis
    using extract_loop_first[of "[PDict [(PStr ''line'', PStr l)]]" b]
    by (simp add: extract_event_name_def and_then_def)
qed

subsection \<open>Deduplication\<close>

lemma dedup_loop_acc: "dedup_loop seen acc es = acc @ dedup_loop seen [] es"
proof (induction es arbitrary: seen acc)
  case Nil
  then show ?case by simp
next
  case (Cons e es)
  show ?case
    using Cons.IH[of "insert (event_key e) seen" "acc @ [e]"]
          Cons.IH[of "insert (event_key e) seen" "[e]"] Cons.IH[of seen acc]
    by simp
qed

lemma dedup_loop_Cons:
  "dedup_loop seen [] (e # es) =
     (if event_key e \<in> seen then dedup_loop seen [] es
      else e # dedup_loop (insert (event_key e) seen) [] es)"
  using dedup_loop_acc[of "insert (event_key e) seen" "[e]" es] by simp

lemma dedup_loop_filter:
  "dedup_loop seen [] es = filter (\<lambda>x. event_key x \<notin> seen) (dedup_loop {} [] es)"
proof (induction es arbitrary: seen)
  case Nil
  then show ?case by simp
next
  case (Cons e es)
  have a: "dedup_loop (insert (event_key e) seen) [] es
           = filter (\<lambda>x. event_key x \<notin> insert (event_key e) seen) (dedup_loop {} [] es)"
    by (rule Cons.IH)
  have b: "dedup_loop {event_key e} [] es
           = filter (\<lambda>x. event_key x \<notin> {event_key e}) (dedup_loop {} [] es)"
    by (rule Cons.IH)
  have c: "dedup_loop seen [] es = filter (\<lambda>x. event_key x \<notin> seen) (dedup_loop {} [] es)"
    by (rule Cons.IH)
  show ?case
  proof (cases "event_key e \<in> seen")
    case True
    then have "filter (\<lambda>x. event_key x \<notin> seen)
                 (filter (\<lambda>x. event_key x \<notin> {event_key e}) (dedup_loop {} [] es))
        = filter (\<lambda>x. event_key x \<notin> seen) (dedup_loop {} [] es)"
      by (auto intro: filter_cong)
    then show ?thesis using True b c by (simp add: dedup_loop_Cons del: dedup_loop.simps)
  next
    case False
    have "filter (\<lambda>x. event_key x \<notin> seen)
            (filter (\<lambda>x. event_key x \<notin> {event_key e}) (dedup_loop {} [] es))
        = filter (\<lambda>x. event_key x \<notin> insert (event_key e) seen) (dedup_loop {} [] es)"
      by (auto intro: filter_cong)
    then show ?thesis using False a b by (simp add: dedup_loop_Cons del: dedup_loop.simps)
  qed
qed

lemma dedup_Nil: "deduplicate_events [] = []"
  by (simp add: deduplicate_events_def)

text \<open>The loop keeps a record and drops every later record of its key.\<close>

lemma dedup_Cons:
  "deduplicate_events (e # es)
     = e # filter (\<lambda>x. event_key x \<noteq> event_key e) (deduplicate_events es)"
  using dedup_loop_filter[of "{event_key e}" es]
  by (simp add: deduplicate_events_def dedup_loop_Cons del: dedup_loop.simps)

lemma image_filter_neq: "f ` {x \<in> S. f x \<noteq> k} = f ` S - {k}"
  by auto

lemma dedup_keys_set: "set (map event_key (deduplicate_events es)) = set (map event_key es)"
proof (induction es)
  case Nil
  then show ?case by (simp add: dedup_Nil)
next
  case (Cons e es)
  then have "event_key ` set (deduplicate_events es) = event_key ` set es" by simp
  then show ?case by (simp add: dedup_Cons image_filter_neq)
qed

lemma dedup_set_subset: "set (deduplicate_events es) \<subseteq> set es"
  by (induction es) (auto simp: dedup_Nil dedup_Cons)

lemma dedup_keys_distinct: "distinct (map event_key (deduplicate_events es))"
  by (induction es) (auto simp: dedup_Nil dedup_Cons distinct_map_filter)

lemma dedup_subseq: "subseq (deduplicate_events es) es"
proof (induction es)
  case Nil
  then show ?case by (simp add: dedup_Nil)
next
  case (Cons e es)
  have "subseq (filter (\<lambda>x. event_key x \<noteq> event_key e) (deduplicate_events es))
          (deduplicate_events es)"
    by simp
  then have "subseq (filter (\<lambda>x. event_key x \<noteq> event_key e) (deduplicate_events es)) es"
    using Cons.IH subseq_order.trans by blast
  then show ?case by (simp add: dedup_Cons)
qed

lemma dedup_fixed: "distinct (map event_key es) \<Longrightarrow> deduplicate_events es = es"
proof (induction es)
  case Nil
  then show ?case by (simp add: dedup_Nil)
next
  case (Cons e es)
  from Cons.prems have ne: "event_key e \<notin> event_key ` set es" by simp
  have "\<forall>x\<in>set es. event_key x \<noteq> event_key e"
  proof
    fix x assume "x \<in> set es"
    then have "event_key x \<in> event_key ` set es" by (rule imageI)
    with ne show "event_key x \<noteq> event_key e" by metis
  qed
  then have "filter (\<lambda>x. event_key x \<noteq> event_key e) es = es"
    by simp
  then show ?case using Cons by (simp add: dedup_Cons)
qed

lemma remdups_snoc: "remdups (ys @ [k]) = filter (\<lambda>y. y \<noteq> k) (remdups ys) @ [k]"
  by (induction ys) auto

lemma dedup_first_seen_keys:
  "map event_key (deduplicate_events es) = rev (remdups (rev (map event_key es)))"
proof (induction es)
  case Nil
  then show ?case by (simp add: dedup_Nil)
next
  case (Cons e es)
  have "map event_key (filter (\<lambda>x. event_key x \<noteq> event_key e) (deduplicate_events es))
        = filter (\<lambda>k. k \<noteq> event_key e) (map event_key (deduplicate_events es))"
    by (simp add: filter_map comp_def)
  then show ?case using Cons.IH by (simp add: dedup_Cons remdups_snoc rev_filter)
qed

lemma dedup_append:
  "deduplicate_events (xs @ ys) =
     deduplicate_events xs
       @ filter (\<lambda>y. event_key y \<notin> set (map event_key xs)) (deduplicate_events ys)"
proof (induction xs)
  case Nil
  then show ?case by (simp add: dedup_Nil)
next
  case (Cons x xs)
  show ?case by (simp add: dedup_Cons Cons.IH) (auto intro: filter_cong)
qed

lemma dedup_twice: "deduplicate_events (es @ es) = deduplicate_events es"
proof -
  have "filter (\<lambda>y. event_key y \<notin> set (map event_key es)) (deduplicate_events es) = []"
    using dedup_set_subset[of es] by (auto simp: filter_empty_conv)
  then show ?thesis by (simp add: dedup_append)
qed

lemma dedup_first:
  "r \<in> set (deduplicate_events es) \<Longrightarrow> find (\<lambda>e. event_key e = event_key r) es = Some r"
proof (induction es)
  case Nil
  then show ?case by (simp add: dedup_Nil)
next
  case (Cons e es)
  then show ?case by (auto simp: dedup_Cons)
qed

lemma find_filter_neq:
  "j \<noteq> k \<Longrightarrow>
   find (\<lambda>x. f x = k) (filter (\<lambda>x. f x \<noteq> j) xs) = find (\<lambda>x. f x = k) xs"
  by (induction xs) auto

lemma dedup_find:
  "find (\<lambda>e. event_key e = k) (deduplicate_events es) = find (\<lambda>e. event_key e = k) es"
proof (induction es)
  case Nil
  then show ?case by (simp add: dedup_Nil)
next
  case (Cons e es)
  have "event_key e \<noteq> k \<Longrightarrow>
        find (\<lambda>x. event_key x = k)
          (filter (\<lambda>x. event_key x \<noteq> event_key e) (deduplicate_events es))
        = find (\<lambda>x. event_key x = k) (deduplicate_events es)"
    by (rule find_filter_neq)
  then show ?case using Cons by (auto simp: dedup_Cons)
qed

subsection \<open>Matches of the wrong shape\<close>

lemma map_res_get_isl:
  "isl (map_res (\<lambda>lm. py_get lm k d) xs) = (\<not> list_all is_dict xs)"
proof (induction xs)
  case Nil
  then show ?case by simp
next
  case (Cons x xs)
  then show ?case
    by (cases x) (auto simp: is_dict_def split: sum.splits)
qed

lemma extract_loop_isl_scanned:
  "isl (extract_loop xs b) = (\<not> list_all is_line_match (scanned xs))"
proof (induction xs)
  case Nil
  then show ?case by simp
next
  case (Cons x xs)
  show ?case
  proof (cases "is_line_match x")
    case False
    then have lt: "line_text x = []"
      by (auto simp: is_line_match_def line_text_def split: sum.splits pyval.splits)
    have "isl (extract_loop (x # xs) b)"
      using False
      by (cases x) (auto simp: is_line_match_def and_then_def split: sum.splits pyval.splits option.splits)
    then show ?thesis using False lt by simp
  next
    case True
    then obtain s where s: "py_get x ''line'' (PStr '''') = Inr (PStr s)"
      by (auto simp: is_line_match_def split: sum.splits pyval.splits)
    have lt: "line_text x = s" using s by (simp add: line_text_def)
    show ?thesis
      using True s lt Cons.IH
      by (auto simp: and_then_def split: option.splits)
  qed
qed

lemma and_then_Inr: "and_then (Inr x) f = f x"
  by (simp add: and_then_def)

lemma and_then_Inl: "and_then (Inl e) f = Inl e"
  by (simp add: and_then_def)

lemma py_get_isl: "isl (py_get v k dflt) = (\<not> is_dict v)"
  by (cases v) (simp_all add: is_dict_def)

lemma py_get_event_get: "py_get (PDict d) k dflt = Inr (event_get d k dflt)"
  by (simp add: event_get_def)

lemma lines_raise_iff:
  assumes t: "truthy lm"
  shows "isl (and_then (extract_event_name lm b) (\<lambda>event_name.
         and_then (py_iter lm) (\<lambda>lms.
         and_then (map_res (\<lambda>x. py_get x ''lineNumber'' (PInt 0)) lms) (\<lambda>line_numbers.
         and_then (map_res (\<lambda>x. py_get x ''line'' (PStr '''')) lms) (\<lambda>line_texts.
           Inr (Some \<lparr> name = event_name, broker = b, file' = fp,
                       repository = rn, lines = line_numbers,
                       source_code = line_texts \<rparr>))))))
      = wrong_lines lm"
proof (cases "py_iter lm")
  case (Inl e)
  then show ?thesis using t
    by (simp add: wrong_lines_def extract_event_name_def and_then_def)
next
  case (Inr xs)
  show ?thesis
    using Inr t extract_loop_isl_scanned[of xs b]
      map_res_get_isl[of "''lineNumber''" "PInt 0" xs]
      map_res_get_isl[of "''line''" "PStr ''''" xs]
    by (auto simp: wrong_lines_def extract_event_name_def and_then_def split: sum.splits)
qed

lemma parse_event_body_raises_iff: "isl (parse_event_body m b) = wrong_shape m"
proof (cases m)
  case (PDict d)
  let ?f = "event_get d ''file'' (PDict [])"
  let ?r = "event_get d ''repository'' (PDict [])"
  let ?lm = "event_get d ''lineMatches'' (PList [])"
  note unf = parse_event_body_def py_get_event_get and_then_Inr and_then_Inl
  show ?thesis
  proof (cases "py_get ?f ''path'' (PStr '''')")
    case (Inl e)
    then have "\<not> is_dict ?f" using py_get_isl[of ?f "''path''" "PStr ''''"] by simp
    then show ?thesis using PDict Inl
      by (simp add: unf wrong_shape_def del: py_get.simps)
  next
    case fp: (Inr fp)
    then have f: "is_dict ?f" using py_get_isl[of ?f "''path''" "PStr ''''"] by simp
    show ?thesis
    proof (cases "py_get ?r ''name'' (PStr '''')")
      case (Inl e)
      then have "\<not> is_dict ?r" using py_get_isl[of ?r "''name''" "PStr ''''"] by simp
      then show ?thesis using PDict Inl fp
        by (simp add: unf wrong_shape_def del: py_get.simps)
    next
      case rn: (Inr rn)
      then have r: "is_dict ?r" using py_get_isl[of ?r "''name''" "PStr ''''"] by simp
      show ?thesis
      proof (cases "truthy ?lm")
        case False
        then show ?thesis using PDict fp rn f r
          by (simp add: unf wrong_shape_def wrong_lines_def del: py_get.simps)
      next
        case True
        show ?thesis using PDict fp rn f r True lines_raise_iff[OF True, of b fp rn]
          by (simp add: unf wrong_shape_def del: py_get.simps)
      qed
    qed
  qed
qed (simp_all add: parse_event_body_def wrong_shape_def and_then_def)

lemma wrong_shape_skipped: "wrong_shape m \<Longrightarrow> parse_event m b = None"
  using parse_event_body_raises_iff[of m b]
  by (auto simp: parse_event_def split: sum.splits)

lemma empty_lines_skipped:
  "py_get m ''lineMatches'' (PList []) = Inr lm \<Longrightarrow> \<not> truthy lm \<Longrightarrow> parse_event m b = None"
  by (auto simp: parse_event_def parse_event_body_def and_then_def split: sum.splits)

lemma parse_results_skip:
  "parse_event m b = None \<Longrightarrow>
   parse_results b (xs @ m # ys) = parse_results b xs @ parse_results b ys"
  by (simp add: parse_results_def List.map_filter_def)

lemma parse_results_filter:
  "parse_results b (filter (\<lambda>m. \<not> wrong_shape m) rs) = parse_results b rs"
proof (induction rs)
  case Nil
  then show ?case by simp
next
  case (Cons r rs)
  then show ?case
    using wrong_shape_skipped[of r b]
    by (auto simp: parse_results_def List.map_filter_def)
qed

lemma collect_events_filter:
  "collect_events repo (\<lambda>q r. filter (\<lambda>m. \<not> wrong_shape m) (search_code q r))
     = collect_events repo search_code"
  by (simp add: collect_events_def parse_results_filter)

lemma right_shape_parsed:
  assumes w: "\<not> wrong_shape (PDict d)"
    and t: "truthy (event_get d ''lineMatches'' (PList []))"
  shows "\<exists>ev. parse_event (PDict d) b = Some ev \<and> broker ev = b
           \<and> py_get (event_get d ''file'' (PDict [])) ''path'' (PStr '''') = Inr (file' ev)
           \<and> py_get (event_get d ''repository'' (PDict [])) ''name'' (PStr '''')
               = Inr (repository ev)"
proof -
  have "\<not> isl (parse_event_body (PDict d) b)"
    using w parse_event_body_raises_iff[of "PDict d" b] by simp
  then obtain r where r: "parse_event_body (PDict d) b = Inr r"
    by (cases "parse_event_body (PDict d) b") auto
  show ?thesis
    using r t
    by (auto simp: parse_event_def parse_event_body_def py_get_event_get and_then_def
             simp del: py_get.simps split: sum.splits)
qed

lemma absent_field_default:
  "dict_lookup d (PStr k) = None \<Longrightarrow>
   py_get (event_get d k (PDict [])) k' (PStr '''') = Inr (PStr '''')"
  by (simp add: event_get_def)

section \<open>The claims about event detection\<close>

text \<open>
  Claim C2. For every list of raw event records, deduplication keyed on the pair
  (name, broker) leaves exactly one record for each distinct key of the input (the keys
  of the result are pairwise distinct and are the keys of the input), the surviving
  records stand in the order in which their keys were first seen (the result is a
  subsequence of the input and its keys are the input's keys in order of first
  occurrence), and deduplication is idempotent: applied to a deduplicated list, and so to
  the result of \<open>detect_events\<close>, it changes nothing, and going through the same raw
  records twice gives the same records as going through them once.
\<close>

theorem dedup_one_record_per_key_first_seen_idempotent:
  "distinct (map event_key (deduplicate_events evs))
   \<and> set (map event_key (deduplicate_events evs)) = set (map event_key evs)
   \<and> subseq (deduplicate_events evs) evs
   \<and> map event_key (deduplicate_events evs) = rev (remdups (rev (map event_key evs)))
   \<and> deduplicate_events (deduplicate_events evs) = deduplicate_events evs
   \<and> deduplicate_events (detect_events repo search_code) = detect_events repo search_code
   \<and> deduplicate_events (evs @ evs) = deduplicate_events evs"
proof -
  have idem: "\<And>xs. deduplicate_events (deduplicate_events xs) = deduplicate_events xs"
    by (rule dedup_fixed) (rule dedup_keys_distinct)
  show ?thesis
    using dedup_keys_distinct[of evs] dedup_keys_set[of evs] dedup_subseq[of evs]
      dedup_first_seen_keys[of evs] idem[of evs] dedup_twice[of evs]
      idem[of "collect_events repo search_code"]
    unfolding detect_events_def by blast
qed

theorem dedup_one_record_per_key_witness:
  "deduplicate_events [ev_first, ev_kafka, ev_later] = [ev_first, ev_kafka]
   \<and> distinct (map event_key (deduplicate_events [ev_first, ev_kafka, ev_later]))
   \<and> deduplicate_events (deduplicate_events [ev_first, ev_kafka, ev_later])
       = deduplicate_events [ev_first, ev_kafka, ev_later]"
proof -
  have "deduplicate_events [ev_first, ev_kafka, ev_later] = [ev_first, ev_kafka]"
    by code_simp
  then show ?thesis
    using dedup_one_record_per_key_first_seen_idempotent[of "[ev_first, ev_kafka, ev_later]"]
    by blast
qed

text \<open>
  Claim C9. When several raw records share a (name, broker) key, the record that
  deduplication retains for the key is the first record of the input with that key, as
  it stands there (file, repository, lines and source code included): looking a key up
  in the result finds what looking it up in the input finds, every retained record is
  the first input record of its key, and nothing is retained that is not an input record
  (no record is built by merging).
\<close>

theorem dedup_retains_first_encountered_record:
  "find (\<lambda>e. event_key e = k) (deduplicate_events evs) = find (\<lambda>e. event_key e = k) evs
   \<and> (\<forall>r \<in> set (deduplicate_events evs). find (\<lambda>e. event_key e = event_key r) evs = Some r)
   \<and> set (deduplicate_events evs) \<subseteq> set evs"
  using dedup_find[of k evs] dedup_first[of _ evs] dedup_set_subset[of evs] by blast

theorem dedup_retains_first_encountered_witness:
  "find (\<lambda>e. event_key e = (''user.created'', ''generic''))
      (deduplicate_events [ev_first, ev_kafka, ev_later]) = Some ev_first
   \<and> lines ev_first = [PInt 1] \<and> file' ev_first = PStr ''a.py''"
proof -
  have "find (\<lambda>e. event_key e = (''user.created'', ''generic'')) [ev_first, ev_kafka, ev_later]
        = Some ev_first"
    by code_simp
  moreover have "lines ev_first = [PInt 1] \<and> file' ev_first = PStr ''a.py''"
    by (simp add: ev_first_def)
  ultimately show ?thesis
    using dedup_retains_first_encountered_record
            [of "(''user.created'', ''generic'')" "[ev_first, ev_kafka, ev_later]"]
    by simp
qed

text \<open>
  Claim C3. For every match whose line matches are well formed: when the matched lines
  hold a qualifying quoted literal (one the scan for \<open>[a-zA-Z0-9._-]+\<close> between quotes
  finds, longer than 2 characters and not starting with an underscore), the extracted
  event name is the first such literal in encounter order across the lines; when they
  hold none, the extracted name is the broker tag followed by \<open>_event\<close>.
\<close>

theorem extract_event_name_first_literal:
  assumes "list_all is_line_match lms"
  shows "(\<forall>s. find reasonable (quoted_literals lms) = Some s \<longrightarrow>
            extract_event_name (PList lms) b = Inr s)
       \<and> (find reasonable (quoted_literals lms) = None \<longrightarrow>
            extract_event_name (PList lms) b = Inr (b @ ''_event''))"
  using extract_loop_first[OF assms, of b] by (simp add: extract_event_name_def and_then_def)

theorem extract_event_name_first_literal_witness:
  "list_all is_line_match
     [line_match 4 (''x = '' @ [dq] @ ''ab'' @ [dq] @ '' + '' @ [sq] @ ''_tmp'' @ [sq]),
      line_match 5 kafka_line, line_match 6 rabbit_line]
   \<and> extract_event_name
        (PList [line_match 4 (''x = '' @ [dq] @ ''ab'' @ [dq] @ '' + '' @ [sq] @ ''_tmp'' @ [sq]),
                line_match 5 kafka_line, line_match 6 rabbit_line]) ''kafka''
       = Inr ''payment.processed''
   \<and> list_all is_line_match [line_match 4 (''x = '' @ [dq] @ ''ab'' @ [dq])]
   \<and> extract_event_name (PList [line_match 4 (''x = '' @ [dq] @ ''ab'' @ [dq])]) ''kafka''
       = Inr ''kafka_event''"
proof -
  let ?L = "[line_match 4 (''x = '' @ [dq] @ ''ab'' @ [dq] @ '' + '' @ [sq] @ ''_tmp'' @ [sq]),
             line_match 5 kafka_line, line_match 6 rabbit_line]"
  let ?M = "[line_match 4 (''x = '' @ [dq] @ ''ab'' @ [dq])]"
  have wl: "list_all is_line_match ?L" by code_simp
  have wm: "list_all is_line_match ?M" by code_simp
  have fl: "find reasonable (quoted_literals ?L) = Some ''payment.processed''" by code_simp
  have fm: "find reasonable (quoted_literals ?M) = None" by code_simp
  show ?thesis
    using wl wm fl fm
      extract_event_name_first_literal[OF wl, of "''kafka''"]
      extract_event_name_first_literal[OF wm, of "''kafka''"]
    by simp
qed

text \<open>
  Claim C10, as stated, fails: it makes every run of name characters that stands between
  two quote characters a candidate, but the scan is leftmost and non-overlapping. In the
  line \<open>"a"cde"\<close> the run \<open>cde\<close> stands between two quotes and is no candidate: its opening
  quote was consumed as the closing quote of \<open>a\<close>.
\<close>

theorem quote_scan_between_quotes_counterexample:
  "\<not> (\<forall>pre q1 tok q2 post.
         is_quote q1 \<and> is_quote q2 \<and> tok \<noteq> [] \<and> list_all is_name_char tok
         \<longrightarrow> tok \<in> set (findall_quoted (pre @ q1 # tok @ q2 # post)))"
proof
  assume a: "\<forall>pre q1 tok q2 post.
         is_quote q1 \<and> is_quote q2 \<and> tok \<noteq> [] \<and> list_all is_name_char tok
         \<longrightarrow> tok \<in> set (findall_quoted (pre @ q1 # tok @ q2 # post))"
  have h: "is_quote dq \<and> is_quote dq \<and> ''cde'' \<noteq> [] \<and> list_all is_name_char ''cde''"
    by code_simp
  have "''cde'' \<in> set (findall_quoted (([dq] @ ''a'') @ dq # ''cde'' @ dq # []))"
    using a h by blast
  moreover have "findall_quoted (([dq] @ ''a'') @ dq # ''cde'' @ dq # []) = [''a'']"
    by code_simp
  ultimately show False by simp
qed

text \<open>
  Claim C10, amended. The opening and the closing quote of a candidate need not be the
  same character: on every line, a non-empty run of name characters that is preceded by
  either quote character and followed by either quote character is a candidate, provided
  its opening quote is not the closing quote of an earlier candidate (appending the
  opening quote to the text before it completes no literal there). When the text before
  it holds no qualifying literal and the run qualifies, it is the extracted event name;
  so \<open>orders\<close> in \<open>"orders'\<close> can become the event name.
\<close>

theorem quote_scan_accepts_mixed_quotes:
  assumes "is_quote q1" and "is_quote q2" and "tok \<noteq> []" and "list_all is_name_char tok"
    and "findall_quoted (pre @ [q1]) = findall_quoted pre"
  shows "findall_quoted (pre @ q1 # tok @ q2 # post) = findall_quoted pre @ tok # findall_quoted post
       \<and> (find reasonable (findall_quoted pre) = None \<and> reasonable tok \<longrightarrow>
            extract_event_name (PList [PDict [(PStr ''line'', PStr (pre @ q1 # tok @ q2 # post))]]) b
              = Inr tok)"
proof -
  have nm: "\<forall>c\<in>set tok. is_name_char c" using assms(4) by (simp add: list_all_iff)
  have t: "findall_quoted (q1 # tok @ q2 # post) = tok # findall_quoted post"
    by (rule findall_token[OF assms(1) assms(2) assms(3) nm])
  have e: "findall_quoted (pre @ q1 # tok @ q2 # post)
           = findall_quoted pre @ tok # findall_quoted post"
    using findall_append_quote[OF assms(1) assms(5), of "tok @ q2 # post"]
    by (simp only: t)
  have "find reasonable (findall_quoted pre) = None \<and> reasonable tok \<longrightarrow>
          find reasonable (findall_quoted (pre @ q1 # tok @ q2 # post)) = Some tok"
    unfolding e by (simp add: find_append)
  then have "find reasonable (findall_quoted pre) = None \<and> reasonable tok \<longrightarrow>
            extract_event_name (PList [PDict [(PStr ''line'', PStr (pre @ q1 # tok @ q2 # post))]]) b
              = Inr tok"
    by (simp add: extract_single_line del: findall_quoted.simps)
  with e show ?thesis by blast
qed

theorem quote_scan_accepts_mixed_quotes_witness:
  "is_quote dq \<and> is_quote sq \<and> ''orders'' \<noteq> [] \<and> list_all is_name_char ''orders''
   \<and> findall_quoted (''publish('' @ [dq]) = findall_quoted ''publish(''
   \<and> findall_quoted (''publish('' @ dq # ''orders'' @ sq # '', x)'')
       = findall_quoted ''publish('' @ ''orders'' # findall_quoted '', x)''
   \<and> findall_quoted ''publish('' = [] \<and> findall_quoted '', x)'' = []
   \<and> extract_event_name
        (PList [PDict [(PStr ''line'', PStr (''publish('' @ dq # ''orders'' @ sq # '', x)''))]])
        ''generic'' = Inr ''orders''"
proof -
  have h1: "is_quote dq" by code_simp
  have h2: "is_quote sq" by code_simp
  have h3: "''orders'' \<noteq> []" by simp
  have h4: "list_all is_name_char ''orders''" by code_simp
  have h5: "findall_quoted (''publish('' @ [dq]) = findall_quoted ''publish(''" by code_simp
  have f1: "findall_quoted ''publish('' = []" by code_simp
  have f2: "findall_quoted '', x)'' = []" by code_simp
  have f3: "find reasonable (findall_quoted ''publish('') = None" by code_simp
  have r: "reasonable ''orders''" by code_simp
  note T = quote_scan_accepts_mixed_quotes[OF h1 h2 h3 h4 h5, of "'', x)''" "''generic''"]
  show ?thesis
    using h1 h2 h3 h4 h5 f1 f2 f3 r T by blast
qed

text \<open>
  Claim C7, as stated, fails: a match that is missing expected fields is not skipped.
  The result \<open>bare_match\<close> has line matches and neither \<open>file\<close> nor \<open>repository\<close>;
  \<open>get\<close> defaults both, and the match yields a record whose \<open>file\<close> and \<open>repository\<close>
  are the empty string, which the batch keeps.
\<close>

theorem match_missing_fields_not_skipped_counterexample:
  "dict_keys bare_match = [PStr ''lineMatches'']
   \<and> parse_event bare_match ''kafka''
       = Some \<lparr> name = ''payment.processed'', broker = ''kafka'', file' = PStr '''',
                repository = PStr '''', lines = [PInt 20], source_code = [PStr kafka_line] \<rparr>
   \<and> parse_results ''kafka'' [kafka_match, bare_match]
       = parse_results ''kafka'' [kafka_match]
         @ [\<lparr> name = ''payment.processed'', broker = ''kafka'', file' = PStr '''',
               repository = PStr '''', lines = [PInt 20], source_code = [PStr kafka_line] \<rparr>]"
  by code_simp

text \<open>
  Claim C7, amended. A match whose line-match sequence is empty (or absent) yields no
  event record. The body of \<open>_parse_event\<close> raises exactly on a match of the wrong
  shape: one that is not a dictionary, whose \<open>file\<close> or \<open>repository\<close> is not a
  dictionary, or whose non-empty \<open>lineMatches\<close> cannot be iterated, holds an item that is
  not a dictionary, or holds a scanned line whose \<open>line\<close> is not a string. Such a match
  yields no record, and the records of the matches around it in the batch are those they
  yield on their own. A match of the right shape with line matches yields a record, also
  when \<open>file\<close> or \<open>repository\<close> is missing: the record then has the empty string
  there. \<open>detect_events\<close>, a total function of a client that returns lists, returns what
  it returns when the matches of the wrong shape are removed from every batch.
\<close>

theorem detect_skips_only_the_wrong_shaped_match:
  "(py_get m ''lineMatches'' (PList []) = Inr lm \<and> \<not> truthy lm \<longrightarrow> parse_event m b = None)
   \<and> isl (parse_event_body m b) = wrong_shape m
   \<and> (wrong_shape m \<longrightarrow>
        parse_event m b = None
        \<and> parse_results b (xs @ m # ys) = parse_results b xs @ parse_results b ys)
   \<and> (\<not> wrong_shape (PDict d) \<and> truthy (event_get d ''lineMatches'' (PList [])) \<longrightarrow>
        (\<exists>ev. parse_event (PDict d) b = Some ev \<and> broker ev = b
           \<and> (dict_lookup d (PStr ''file'') = None \<longrightarrow> file' ev = PStr '''')
           \<and> (dict_lookup d (PStr ''repository'') = None \<longrightarrow> repository ev = PStr '''')))
   \<and> detect_events repo (\<lambda>q r. filter (\<lambda>m. \<not> wrong_shape m) (search_code q r))
       = detect_events repo search_code"
proof -
  have a: "py_get m ''lineMatches'' (PList []) = Inr lm \<and> \<not> truthy lm \<longrightarrow> parse_event m b = None"
    using empty_lines_skipped[of m lm b] by blast
  have c: "wrong_shape m \<longrightarrow>
        parse_event m b = None
        \<and> parse_results b (xs @ m # ys) = parse_results b xs @ parse_results b ys"
    using wrong_shape_skipped[of m b] parse_results_skip[of m b xs ys] by blast
  have e: "\<not> wrong_shape (PDict d) \<and> truthy (event_get d ''lineMatches'' (PList [])) \<longrightarrow>
        (\<exists>ev. parse_event (PDict d) b = Some ev \<and> broker ev = b
           \<and> (dict_lookup d (PStr ''file'') = None \<longrightarrow> file' ev = PStr '''')
           \<and> (dict_lookup d (PStr ''repository'') = None \<longrightarrow> repository ev = PStr ''''))"
  proof
    assume h: "\<not> wrong_shape (PDict d) \<and> truthy (event_get d ''lineMatches'' (PList []))"
    then obtain ev where ev: "parse_event (PDict d) b = Some ev" "broker ev = b"
      "py_get (event_get d ''file'' (PDict [])) ''path'' (PStr '''') = Inr (file' ev)"
      "py_get (event_get d ''repository'' (PDict [])) ''name'' (PStr '''') = Inr (repository ev)"
      using right_shape_parsed[of d b] by blast
    have "dict_lookup d (PStr ''file'') = None \<longrightarrow> file' ev = PStr ''''"
      using ev(3) absent_field_default[of d "''file''" "''path''"] by auto
    moreover have "dict_lookup d (PStr ''repository'') = None \<longrightarrow> repository ev = PStr ''''"
      using ev(4) absent_field_default[of d "''repository''" "''name''"] by auto
    ultimately show "\<exists>ev. parse_event (PDict d) b = Some ev \<and> broker ev = b
           \<and> (dict_lookup d (PStr ''file'') = None \<longrightarrow> file' ev = PStr '''')
           \<and> (dict_lookup d (PStr ''repository'') = None \<longrightarrow> repository ev = PStr '''')"
      using ev(1,2) by (intro exI[of _ ev]) simp
  qed
  have f: "detect_events repo (\<lambda>q r. filter (\<lambda>m. \<not> wrong_shape m) (search_code q r))
       = detect_events repo search_code"
    by (simp add: detect_events_def collect_events_filter)
  show ?thesis
    by (intro conjI) (rule a, rule parse_event_body_raises_iff, rule c, rule e, rule f)
qed

theorem detect_skips_only_the_wrong_shaped_match_witness:
  "py_get (file_match ''a.py'' ''shop'' []) ''lineMatches'' (PList []) = Inr (PList [])
   \<and> \<not> truthy (PList [])
   \<and> parse_event (file_match ''a.py'' ''shop'' []) ''kafka'' = None
   \<and> wrong_shape bad_match
   \<and> isl (parse_event_body bad_match ''kafka'')
   \<and> parse_event bad_match ''kafka'' = None
   \<and> parse_results ''kafka'' ([kafka_match] @ bad_match # [rabbit_match])
       = parse_results ''kafka'' [kafka_match] @ parse_results ''kafka'' [rabbit_match]
   \<and> length (parse_results ''kafka'' ([kafka_match] @ bad_match # [rabbit_match])) = 2
   \<and> \<not> wrong_shape (PDict bare_fields)
   \<and> truthy (event_get bare_fields ''lineMatches'' (PList []))
   \<and> dict_lookup bare_fields (PStr ''file'') = None
   \<and> dict_lookup bare_fields (PStr ''repository'') = None
   \<and> (\<exists>ev. parse_event (PDict bare_fields) ''kafka'' = Some ev \<and> broker ev = ''kafka''
          \<and> file' ev = PStr '''' \<and> repository ev = PStr '''')"
proof -
  note T = detect_skips_only_the_wrong_shaped_match
  have a: "py_get (file_match ''a.py'' ''shop'' []) ''lineMatches'' (PList []) = Inr (PList [])"
    by code_simp
  have a': "\<not> truthy (PList [])" by simp
  have b: "wrong_shape bad_match" by code_simp
  have c: "length (parse_results ''kafka'' [kafka_match] @ parse_results ''kafka'' [rabbit_match]) = 2"
    by code_simp
  have d: "\<not> wrong_shape (PDict bare_fields)" by code_simp
  have t: "truthy (event_get bare_fields ''lineMatches'' (PList []))" by code_simp
  have f: "dict_lookup bare_fields (PStr ''file'') = None" by code_simp
  have r: "dict_lookup bare_fields (PStr ''repository'') = None" by code_simp
  have 1: "parse_event (file_match ''a.py'' ''shop'' []) ''kafka'' = None"
    using T[of "file_match ''a.py'' ''shop'' []" "PList []" "''kafka''", THEN conjunct1] a a'
    by blast
  have 2: "isl (parse_event_body bad_match ''kafka'')"
    using T[of bad_match _ "''kafka''", THEN conjunct2, THEN conjunct1] b by blast
  have 3: "parse_event bad_match ''kafka'' = None
     \<and> parse_results ''kafka'' ([kafka_match] @ bad_match # [rabbit_match])
       = parse_results ''kafka'' [kafka_match] @ parse_results ''kafka'' [rabbit_match]"
    using T[of bad_match _ "''kafka''" "[kafka_match]" "[rabbit_match]",
            THEN conjunct2, THEN conjunct2, THEN conjunct1] b by blast
  have 4: "\<exists>ev. parse_event (PDict bare_fields) ''kafka'' = Some ev \<and> broker ev = ''kafka''
          \<and> file' ev = PStr '''' \<and> repository ev = PStr ''''"
    using T[of _ _ "''kafka''" _ _ bare_fields,
            THEN conjunct2, THEN conjunct2, THEN conjunct2, THEN conjunct1] d t f r by blast
  have 5: "length (parse_results ''kafka'' ([kafka_match] @ bad_match # [rabbit_match])) = 2"
    using 3 c by simp
  show ?thesis
    by (intro conjI) (rule a a' 1 b 2 3[THEN conjunct1] 3[THEN conjunct2] 5 d t f r 4)+
qed

section \<open>Properties of the generators\<close>

lemma valid_set_order_Nil: "valid_set_order rt \<Longrightarrow> set_order rt [] = []"
  by (metis valid_set_order_def mset_zero_iff)

lemma generate_info_result:
  "generate_info rt s evs v =
     (if list_all hashable (map (\<lambda>e. event_get e ''repository'' (PStr '''')) evs)
      then Inr (pdict
         [(''title'', PStr (s @ '' Event API'')),
          (''version'', PStr v),
          (''description'',
             PStr (''Asynchronous event API for '' @ s @ ''. ''
                   @ ''This specification was auto-generated from code analysis.'')),
          (''x-generated'', pdict
             [(''timestamp'', PStr (utcnow_iso rt @ ''Z'')),
              (''eventCount'', PInt (int (length evs))),
              (''repositories'',
                 PList (set_order rt
                   (set_elements [] (map (\<lambda>e. event_get e ''repository'' (PStr '''')) evs))))])])
      else Inl TypeError)"
  by (simp add: generate_info_def list_of_set_def and_then_def)

lemma without_run_fields_info:
  "without_run_fields (pdict
      [(''asyncapi'', a),
       (''info'', pdict [(''title'', t), (''version'', v), (''description'', d),
                         (''x-generated'', pdict [(''timestamp'', ts), (''eventCount'', n),
                                                  (''repositories'', rs)])]),
       (''servers'', sv), (''channels'', ch), (''operations'', op), (''components'', co)])
   = pdict
      [(''asyncapi'', a),
       (''info'', pdict [(''title'', t), (''version'', v), (''description'', d),
                         (''x-generated'', pdict [(''timestamp'', PNone), (''eventCount'', n),
                                                  (''repositories'', PNone)])]),
       (''servers'', sv), (''channels'', ch), (''operations'', op), (''components'', co)]"
  by (simp add: without_run_fields_def without_timestamp_def pdict_def)

lemma repositories_of_info:
  "repositories_of (pdict
      [(''asyncapi'', a),
       (''info'', pdict [(''title'', t), (''version'', v), (''description'', d),
                         (''x-generated'', pdict [(''timestamp'', ts), (''eventCount'', n),
                                                  (''repositories'', PList rs)])]),
       (''servers'', sv), (''channels'', ch), (''operations'', op), (''components'', co)])
   = rs"
  by (simp add: repositories_of_def item_def pdict_def)

text \<open>The sections of the document that no run-dependent value enters.\<close>

lemma generate_spec_cases:
  "generate_spec rt s evs v =
     (case generate_info rt s evs v of
        Inl e \<Rightarrow> Inl e
      | Inr info \<Rightarrow>
          (case and_then (generate_servers evs) (\<lambda>sv.
                  and_then (generate_channels evs) (\<lambda>ch.
                  and_then (generate_operations evs) (\<lambda>op.
                  and_then (generate_components evs) (\<lambda>co. Inr (sv, ch, op, co))))) of
             Inl e \<Rightarrow> Inl e
           | Inr (sv, ch, op, co) \<Rightarrow>
               Inr (pdict
                 [(''asyncapi'', PStr ''3.0.0''), (''info'', info), (''servers'', sv),
                  (''channels'', ch), (''operations'', op), (''components'', co)])))"
  by (simp add: generate_spec_def and_then_def split: sum.splits)

lemma valid_run_a: "valid_set_order run_a"
  by (simp add: valid_set_order_def run_a_def)

lemma valid_run_b: "valid_set_order run_b"
  by (simp add: valid_set_order_def run_b_def)

lemma scenario_detect:
  "detect_events repo scenario_search =
     [\<lparr> name = ''payment.processed'', broker = ''kafka'', file' = PStr ''Payments.java'',
        repository = PStr ''shop'', lines = [PInt 20], source_code = [PStr kafka_line] \<rparr>,
      \<lparr> name = ''orders'', broker = ''rabbitmq'', file' = PStr ''publisher.py'',
        repository = PStr ''shop'', lines = [PInt 10], source_code = [PStr rabbit_line] \<rparr>]"
  by code_simp

subsection \<open>The 2.6 generator and missing names\<close>

lemma scalar_eq_str: "scalar_eq k (PStr s) = (k = PStr s)"
  by (cases k) auto

lemma dict_lookup_str_None:
  "(dict_lookup d (PStr s) = None) = (PStr s \<notin> set (map fst d))"
  by (induction d) (auto simp: scalar_eq_str split: if_splits)

lemma dict_set_str_new:
  "PStr s \<notin> set (map fst d) \<Longrightarrow> map fst (dict_set d (PStr s) v) = map fst d @ [PStr s]"
  by (induction d) (auto simp: scalar_eq_str)

lemma generate_loop_names:
  "list_all (\<lambda>ev. \<exists>s. event_get ev ''name'' (PStr ''unknown'') = PStr s) evs \<Longrightarrow>
   \<exists>chs. generate_loop (map PDict evs) channels = Inr chs
        \<and> set (map fst chs)
            = set (map fst channels) \<union> set (map (\<lambda>ev. event_get ev ''name'' (PStr ''unknown'')) evs)"
proof (induction evs arbitrary: channels)
  case Nil
  then show ?case by simp
next
  case (Cons ev evs)
  from Cons.prems obtain s where s: "event_get ev ''name'' (PStr ''unknown'') = PStr s"
    and rest: "list_all (\<lambda>ev. \<exists>s. event_get ev ''name'' (PStr ''unknown'') = PStr s) evs"
    by auto
  have g: "py_get (PDict ev) ''name'' (PStr ''unknown'') = Inr (PStr s)"
    using s by (simp add: event_get_def)
  show ?case
  proof (cases "dict_lookup channels (PStr s)")
    case None
    then have new: "PStr s \<notin> set (map fst channels)" by (simp add: dict_lookup_str_None)
    obtain chs where c: "generate_loop (map PDict evs)
                           (dict_set channels (PStr s) (create_channel_of_event ev)) = Inr chs"
      and k: "set (map fst chs)
              = set (map fst (dict_set channels (PStr s) (create_channel_of_event ev)))
                \<union> set (map (\<lambda>ev. event_get ev ''name'' (PStr ''unknown'')) evs)"
      using Cons.IH[OF rest] by blast
    show ?thesis
      using g None c k s dict_set_str_new[OF new]
      by (auto simp: and_then_def)
  next
    case (Some c0)
    then have old: "PStr s \<in> set (map fst channels)"
      using dict_lookup_str_None[of channels s] by simp
    obtain chs where c: "generate_loop (map PDict evs) channels = Inr chs"
      and k: "set (map fst chs)
              = set (map fst channels)
                \<union> set (map (\<lambda>ev. event_get ev ''name'' (PStr ''unknown'')) evs)"
      using Cons.IH[OF rest] by blast
    show ?thesis
      using g Some c k s old by (auto simp: and_then_def)
  qed
qed

text \<open>
  \<open>generate\<close> of generator.py on records whose name, when present, is a string: it does
  not fail, and the channels are the names of the records, \<open>unknown\<close> standing for a
  missing one.
\<close>

lemma generate_defaults_missing_name:
  assumes "list_all (\<lambda>ev. \<exists>s. event_get ev ''name'' (PStr ''unknown'') = PStr s) evs"
  shows "\<exists>doc. generate [(PStr ''events'', PList (map PDict evs))] = Inr doc
           \<and> set (dict_keys (item doc ''channels''))
               = set (map (\<lambda>ev. event_get ev ''name'' (PStr ''unknown'')) evs)"
proof -
  obtain chs where c: "generate_loop (map PDict evs) [] = Inr chs"
    and k: "set (map fst chs) = set (map (\<lambda>ev. event_get ev ''name'' (PStr ''unknown'')) evs)"
    using generate_loop_names[OF assms, of "[]"] by auto
  have "generate [(PStr ''events'', PList (map PDict evs))]
          = Inr (pdict (create_base_spec @ [(''channels'', PDict chs)]))"
    using c by (simp add: generate_def event_get_def and_then_def)
  moreover have "dict_keys (item (pdict (create_base_spec @ [(''channels'', PDict chs)])) ''channels'')
                 = map fst chs"
    by (simp add: dict_keys_def item_def pdict_def create_base_spec_def)
  ultimately show ?thesis using k by simp
qed

section \<open>The claims about document generation\<close>

text \<open>
  Claim C1, as stated, fails at its first step. The first quoted literal of the
  line tagged \<open>rabbitmq\<close> is \<open>orders\<close>, the value of \<open>exchange\<close>, and that is the name
  \<open>detect_events\<close> gives the record: there is no record named \<open>order.placed\<close>.
\<close>

theorem scenario_detected_names_counterexample:
  "set (map event_key (detect_events ''shop'' scenario_search))
     \<noteq> {(''order.placed'', ''rabbitmq''), (''payment.processed'', ''kafka'')}"
  by code_simp

text \<open>
  Claim C1, amended. Given exactly the two matches of the scenario, \<open>detect_events\<close>
  returns exactly two records, with the keys (\<open>payment.processed\<close>, \<open>kafka\<close>) and
  (\<open>orders\<close>, \<open>rabbitmq\<close>). The 3.0 generator reads a record's channel from its key
  \<open>channel_name\<close>: applied to two records with the channel names \<open>order.placed\<close> and
  \<open>payment.processed\<close> and the brokers \<open>rabbitmq\<close> and \<open>kafka\<close> it returns a document
  with exactly two server entries, \<open>rabbitmq\<close> and \<open>kafka\<close>, whose protocols are \<open>amqp\<close>
  and \<open>kafka\<close>, and exactly two channel entries, keyed by the sanitized identifiers
  \<open>order_placed\<close> and \<open>payment_processed\<close>. The catalog manager, which \<open>main\<close> runs on
  the detected records, returns for them a document with exactly two server entries,
  \<open>kafka_server\<close> and \<open>rabbitmq_server\<close>, whose protocols are the broker tags, and
  exactly two channel entries keyed by the names as they are, \<open>payment.processed\<close> and
  \<open>orders\<close>.
\<close>

theorem scenario_detect_and_generate:
  "map event_key (detect_events repo scenario_search)
     = [(''payment.processed'', ''kafka''), (''orders'', ''rabbitmq'')]
   \<and> (\<exists>doc. generate_spec rt service_name
                [channel_record ''order.placed'' ''rabbitmq'' ''shop'',
                 channel_record ''payment.processed'' ''kafka'' ''shop''] version = Inr doc
          \<and> dict_keys (item doc ''servers'') = [PStr ''rabbitmq'', PStr ''kafka'']
          \<and> item (item (item doc ''servers'') ''rabbitmq'') ''protocol'' = PStr ''amqp''
          \<and> item (item (item doc ''servers'') ''kafka'') ''protocol'' = PStr ''kafka''
          \<and> dict_keys (item doc ''channels'') = [PStr ''order_placed'', PStr ''payment_processed''])
   \<and> (\<exists>doc. create_specification repo (map event_dict (detect_events repo scenario_search)) = Inr doc
          \<and> dict_keys (item doc ''servers'') = [PStr ''kafka_server'', PStr ''rabbitmq_server'']
          \<and> item (item (item doc ''servers'') ''rabbitmq_server'') ''protocol'' = PStr ''rabbitmq''
          \<and> item (item (item doc ''servers'') ''kafka_server'') ''protocol'' = PStr ''kafka''
          \<and> dict_keys (item doc ''channels'') = [PStr ''payment.processed'', PStr ''orders''])"
proof -
  let ?evs = "[channel_record ''order.placed'' ''rabbitmq'' ''shop'',
               channel_record ''payment.processed'' ''kafka'' ''shop'']"
  have k: "map event_key (detect_events repo scenario_search)
             = [(''payment.processed'', ''kafka''), (''orders'', ''rabbitmq'')]"
    by (simp add: scenario_detect event_key_def)
  have h: "list_all hashable (map (\<lambda>e. event_get e ''repository'' (PStr '''')) ?evs)"
    by code_simp
  define sv where "sv = projr (generate_servers ?evs)"
  define ch where "ch = projr (generate_channels ?evs)"
  define op where "op = projr (generate_operations ?evs)"
  define co where "co = projr (generate_components ?evs)"
  have sv: "generate_servers ?evs = Inr sv" unfolding sv_def by code_simp
  have ch: "generate_channels ?evs = Inr ch" unfolding ch_def by code_simp
  have op: "generate_operations ?evs = Inr op" unfolding op_def by code_simp
  have co: "generate_components ?evs = Inr co" unfolding co_def by code_simp
  have s1: "dict_keys sv = [PStr ''rabbitmq'', PStr ''kafka'']"
    unfolding sv_def by code_simp
  have s2: "item (item sv ''rabbitmq'') ''protocol'' = PStr ''amqp''"
    unfolding sv_def by code_simp
  have s3: "item (item sv ''kafka'') ''protocol'' = PStr ''kafka''"
    unfolding sv_def by code_simp
  have c1: "dict_keys ch = [PStr ''order_placed'', PStr ''payment_processed'']"
    unfolding ch_def by code_simp
  obtain info where i: "generate_info rt service_name ?evs version = Inr info"
    using h by (simp add: generate_info_result)
  let ?doc = "pdict [(''asyncapi'', PStr ''3.0.0''), (''info'', info), (''servers'', sv),
                     (''channels'', ch), (''operations'', op), (''components'', co)]"
  have g: "generate_spec rt service_name ?evs version = Inr ?doc"
    by (simp add: generate_spec_def i sv ch op co and_then_def)
  have gs: "item ?doc ''servers'' = sv" by (simp add: item_def pdict_def)
  have gc: "item ?doc ''channels'' = ch" by (simp add: item_def pdict_def)
  have A: "\<exists>doc. generate_spec rt service_name ?evs version = Inr doc
          \<and> dict_keys (item doc ''servers'') = [PStr ''rabbitmq'', PStr ''kafka'']
          \<and> item (item (item doc ''servers'') ''rabbitmq'') ''protocol'' = PStr ''amqp''
          \<and> item (item (item doc ''servers'') ''kafka'') ''protocol'' = PStr ''kafka''
          \<and> dict_keys (item doc ''channels'') = [PStr ''order_placed'', PStr ''payment_processed'']"
    using g gs gc s1 s2 s3 c1 by metis
  let ?R = "map event_dict (detect_events ''shop'' scenario_search)"
  have r: "map event_dict (detect_events repo scenario_search) = ?R"
    by (simp add: scenario_detect)
  define bs where "bs = projr (group_events (\<lambda>e. event_get e ''broker'' (PStr ''generic'')) ?R [])"
  define si where "si = projr (map_res (\<lambda>(broker_type, broker_events). server_entry broker_type) bs)"
  define en where "en = projr (map_res entries_of ?R)"
  have bs: "group_events (\<lambda>e. event_get e ''broker'' (PStr ''generic'')) ?R [] = Inr bs"
    unfolding bs_def by code_simp
  have si: "map_res (\<lambda>(broker_type, broker_events). server_entry broker_type) bs = Inr si"
    unfolding si_def bs_def by code_simp
  have en: "map_res entries_of ?R = Inr en"
    unfolding en_def by code_simp
  have t2: "map fst (dict_of_items si) = [PStr ''kafka_server'', PStr ''rabbitmq_server'']"
    unfolding si_def bs_def by code_simp
  have t3: "item (item (PDict (dict_of_items si)) ''rabbitmq_server'') ''protocol'' = PStr ''rabbitmq''"
    unfolding si_def bs_def by code_simp
  have t4: "item (item (PDict (dict_of_items si)) ''kafka_server'') ''protocol'' = PStr ''kafka''"
    unfolding si_def bs_def by code_simp
  have t5: "map fst (dict_of_items (map fst en)) = [PStr ''payment.processed'', PStr ''orders'']"
    unfolding en_def by code_simp
  obtain cdoc where cd: "create_specification repo ?R = Inr cdoc"
    and cs: "item cdoc ''servers'' = PDict (dict_of_items si)"
    and cc: "item cdoc ''channels'' = PDict (dict_of_items (map fst en))"
    by (simp add: create_specification_def bs si en and_then_def item_def pdict_def)
  have B: "\<exists>doc. create_specification repo (map event_dict (detect_events repo scenario_search)) = Inr doc
          \<and> dict_keys (item doc ''servers'') = [PStr ''kafka_server'', PStr ''rabbitmq_server'']
          \<and> item (item (item doc ''servers'') ''rabbitmq_server'') ''protocol'' = PStr ''rabbitmq''
          \<and> item (item (item doc ''servers'') ''kafka_server'') ''protocol'' = PStr ''kafka''
          \<and> dict_keys (item doc ''channels'') = [PStr ''payment.processed'', PStr ''orders'']"
    unfolding r using cd cs cc t2 t3 t4 t5 by (simp add: dict_keys_def)
  show ?thesis using k A B by blast
qed

theorem scenario_detect_and_generate_witness:
  "map event_key (detect_events ''acme/shop'' scenario_search)
     = [(''payment.processed'', ''kafka''), (''orders'', ''rabbitmq'')]
   \<and> length (detect_events ''acme/shop'' scenario_search) = 2"
proof -
  have m: "map event_key (detect_events ''acme/shop'' scenario_search)
             = [(''payment.processed'', ''kafka''), (''orders'', ''rabbitmq'')]"
    using scenario_detect_and_generate[of "''acme/shop''" run_a "''svc''" "''1.0.0''"]
    by (rule conjunct1)
  then have "length (map event_key (detect_events ''acme/shop'' scenario_search))
             = length [(''payment.processed'', ''kafka''), (''orders'', ''rabbitmq'')]"
    by (rule arg_cong)
  then have "length (detect_events ''acme/shop'' scenario_search) = 2"
    by simp
  with m show ?thesis by blast
qed

text \<open>
  Claim C4 does not hold of the code: the message and schema identifiers of the
  components depend on the order of the events. \<open>_generate_components\<close> numbers an event
  by \<open>.index(event)\<close> in the list of the events of its channel, which is the position of
  the first record equal to it and not its own position. With two equal records and a
  third of the same channel, the list and its permutation give different identifiers;
  the channel section, which numbers by \<open>enumerate\<close>, refers to \<open>orders_message_1\<close>,
  which the components of the first list do not define.
\<close>

theorem component_ids_depend_on_event_order:
  "mset [order_record, typed_order_record, order_record]
     = mset [order_record, order_record, typed_order_record]
   \<and> map_sum id (\<lambda>d. dict_keys (item (item d ''components'') ''messages''))
        (generate_spec run_a ''svc'' [order_record, order_record, typed_order_record] ''1.0.0'')
       = Inr [PStr ''orders_message_0'', PStr ''orders_message_2'']
   \<and> map_sum id (\<lambda>d. dict_keys (item (item d ''components'') ''messages''))
        (generate_spec run_a ''svc'' [order_record, typed_order_record, order_record] ''1.0.0'')
       = Inr [PStr ''orders_message_0'', PStr ''orders_message_1'']
   \<and> map_sum id (\<lambda>d. dict_keys (item (item d ''components'') ''schemas''))
        (generate_spec run_a ''svc'' [order_record, order_record, typed_order_record] ''1.0.0'')
       = Inr [PStr ''orders_message_0_payload'', PStr ''orders_message_2_payload'']
   \<and> map_sum id (\<lambda>d. dict_keys (item (item d ''components'') ''schemas''))
        (generate_spec run_a ''svc'' [order_record, typed_order_record, order_record] ''1.0.0'')
       = Inr [PStr ''orders_message_0_payload'', PStr ''orders_message_1_payload'']
   \<and> map_sum id (\<lambda>d. dict_keys (item (item (item d ''channels'') ''orders'') ''messages''))
        (generate_spec run_a ''svc'' [order_record, order_record, typed_order_record] ''1.0.0'')
       = Inr [PStr ''orders_message_0'', PStr ''orders_message_1'', PStr ''orders_message_2'']"
proof -
  have 0: "mset [order_record, typed_order_record, order_record]
     = mset [order_record, order_record, typed_order_record]" by (simp add: add.commute)
  have 1: "map_sum id (\<lambda>d. dict_keys (item (item d ''components'') ''messages''))
        (generate_spec run_a ''svc'' [order_record, order_record, typed_order_record] ''1.0.0'')
       = Inr [PStr ''orders_message_0'', PStr ''orders_message_2'']" by code_simp
  have 2: "map_sum id (\<lambda>d. dict_keys (item (item d ''components'') ''messages''))
        (generate_spec run_a ''svc'' [order_record, typed_order_record, order_record] ''1.0.0'')
       = Inr [PStr ''orders_message_0'', PStr ''orders_message_1'']" by code_simp
  have 3: "map_sum id (\<lambda>d. dict_keys (item (item d ''components'') ''schemas''))
        (generate_spec run_a ''svc'' [order_record, order_record, typed_order_record] ''1.0.0'')
       = Inr [PStr ''orders_message_0_payload'', PStr ''orders_message_2_payload'']" by code_simp
  have 4: "map_sum id (\<lambda>d. dict_keys (item (item d ''components'') ''schemas''))
        (generate_spec run_a ''svc'' [order_record, typed_order_record, order_record] ''1.0.0'')
       = Inr [PStr ''orders_message_0_payload'', PStr ''orders_message_1_payload'']" by code_simp
  have 5: "map_sum id (\<lambda>d. dict_keys (item (item (item d ''channels'') ''orders'') ''messages''))
        (generate_spec run_a ''svc'' [order_record, order_record, typed_order_record] ''1.0.0'')
       = Inr [PStr ''orders_message_0'', PStr ''orders_message_1'', PStr ''orders_message_2'']" by code_simp
  show ?thesis using 0 1 2 3 4 5 by blast
qed

text \<open>
  Claim C5, as stated, fails: the list of repositories of the info block is
  \<open>list(set(...))\<close>, whose order is the iteration order of a set of strings and differs
  from one run of the interpreter to the next. Two runs with the same clock and the set
  iterated in opposite orders give documents that differ outside the timestamp.
\<close>

theorem generate_spec_repositories_order_counterexample:
  "\<not> (\<forall>rt1 rt2 s evs v.
         valid_set_order rt1 \<and> valid_set_order rt2 \<longrightarrow>
         map_sum id without_timestamp (generate_spec rt1 s evs v)
           = map_sum id without_timestamp (generate_spec rt2 s evs v))"
proof
  assume h: "\<forall>rt1 rt2 s evs v.
         valid_set_order rt1 \<and> valid_set_order rt2 \<longrightarrow>
         map_sum id without_timestamp (generate_spec rt1 s evs v)
           = map_sum id without_timestamp (generate_spec rt2 s evs v)"
  let ?evs = "[channel_record ''orders'' ''kafka'' ''shop'', channel_record ''stock'' ''kafka'' ''depot'']"
  have "map_sum id without_timestamp (generate_spec run_a ''svc'' ?evs ''1.0.0'')
        = map_sum id without_timestamp (generate_spec run_b ''svc'' ?evs ''1.0.0'')"
    using h valid_run_a valid_run_b by blast
  moreover have "map_sum id without_timestamp (generate_spec run_a ''svc'' ?evs ''1.0.0'')
        \<noteq> map_sum id without_timestamp (generate_spec run_b ''svc'' ?evs ''1.0.0'')"
    by code_simp
  ultimately show False by blast
qed

text \<open>
  Claim C5, amended. For any two runs of \<open>generate_spec\<close> on identical service
  identifier, event list and version, both fail with the same exception or both return a
  document, and the documents are identical except in the timestamp and in the list of
  repositories of the info block; that list holds the same repositories in both runs,
  each as often, in an order that may differ.
\<close>

theorem generate_spec_runs_agree:
  "map_sum id without_run_fields (generate_spec rt1 s evs v)
     = map_sum id without_run_fields (generate_spec rt2 s evs v)
   \<and> (valid_set_order rt1 \<and> valid_set_order rt2
        \<and> generate_spec rt1 s evs v = Inr d1 \<and> generate_spec rt2 s evs v = Inr d2
      \<longrightarrow> mset (repositories_of d1) = mset (repositories_of d2))"
proof -
  let ?vals = "map (\<lambda>e. event_get e ''repository'' (PStr '''')) evs"
  let ?rest = "and_then (generate_servers evs) (\<lambda>sv.
                  and_then (generate_channels evs) (\<lambda>ch.
                  and_then (generate_operations evs) (\<lambda>op.
                  and_then (generate_components evs) (\<lambda>co. Inr (sv, ch, op, co)))))"
  show ?thesis
  proof (cases "list_all hashable ?vals")
    case False
    then show ?thesis by (simp add: generate_spec_cases generate_info_result)
  next
    case True
    show ?thesis
    proof (cases ?rest)
      case (Inl e)
      then show ?thesis using True by (simp add: generate_spec_cases generate_info_result)
    next
      case (Inr r)
      obtain sv ch op co where r: "r = (sv, ch, op, co)" by (cases r) auto
      have m: "valid_set_order rt1 \<and> valid_set_order rt2 \<longrightarrow>
               mset (set_order rt1 (set_elements [] ?vals)) = mset (set_order rt2 (set_elements [] ?vals))"
        by (simp add: valid_set_order_def)
      show ?thesis
        using True Inr r m
        by (auto simp add: generate_spec_cases generate_info_result without_run_fields_info
              repositories_of_info)
    qed
  qed
qed

theorem generate_spec_runs_agree_witness:
  "valid_set_order run_a \<and> valid_set_order run_b
   \<and> repositories_of (projr (generate_spec run_a ''svc''
         [channel_record ''orders'' ''kafka'' ''shop'', channel_record ''stock'' ''kafka'' ''depot'']
         ''1.0.0'')) = [PStr ''shop'', PStr ''depot'']
   \<and> repositories_of (projr (generate_spec run_b ''svc''
         [channel_record ''orders'' ''kafka'' ''shop'', channel_record ''stock'' ''kafka'' ''depot'']
         ''1.0.0'')) = [PStr ''depot'', PStr ''shop'']
   \<and> mset (repositories_of (projr (generate_spec run_a ''svc''
         [channel_record ''orders'' ''kafka'' ''shop'', channel_record ''stock'' ''kafka'' ''depot'']
         ''1.0.0'')))
     = mset (repositories_of (projr (generate_spec run_b ''svc''
         [channel_record ''orders'' ''kafka'' ''shop'', channel_record ''stock'' ''kafka'' ''depot'']
         ''1.0.0'')))"
proof -
  let ?evs = "[channel_record ''orders'' ''kafka'' ''shop'', channel_record ''stock'' ''kafka'' ''depot'']"
  let ?a = "generate_spec run_a ''svc'' ?evs ''1.0.0''"
  let ?b = "generate_spec run_b ''svc'' ?evs ''1.0.0''"
  have a: "?a = Inr (projr ?a)" by code_simp
  have b: "?b = Inr (projr ?b)" by code_simp
  have ra: "repositories_of (projr ?a) = [PStr ''shop'', PStr ''depot'']" by code_simp
  have rb: "repositories_of (projr ?b) = [PStr ''depot'', PStr ''shop'']" by code_simp
  show ?thesis
    using valid_run_a valid_run_b a b ra rb
      generate_spec_runs_agree[of run_a "''svc''" ?evs "''1.0.0''" run_b "projr ?a" "projr ?b"]
    by blast
qed

text \<open>
  Claim C6. For the empty event list \<open>generate_spec\<close> does not fail: it returns the
  document with the version tag \<open>3.0.0\<close>, the title made of the service identifier, the
  event count 0, no repository, and empty servers, channels, operations, messages and
  schemas sections. \<open>generate\<close> of generator.py, on no events, returns the base document
  with an empty channels section (it has no operations section).
\<close>

theorem generate_empty_event_list:
  assumes "valid_set_order rt"
  shows "generate_spec rt service_name [] version =
           Inr (pdict
                 [(''asyncapi'', PStr ''3.0.0''),
                  (''info'', pdict
                     [(''title'', PStr (service_name @ '' Event API'')),
                      (''version'', PStr version),
                      (''description'',
                         PStr (''Asynchronous event API for '' @ service_name @ ''. ''
                               @ ''This specification was auto-generated from code analysis.'')),
                      (''x-generated'', pdict
                         [(''timestamp'', PStr (utcnow_iso rt @ ''Z'')),
                          (''eventCount'', PInt 0),
                          (''repositories'', PList [])])]),
                  (''servers'', PDict []),
                  (''channels'', PDict []),
                  (''operations'', PDict []),
                  (''components'', pdict [(''messages'', PDict []), (''schemas'', PDict [])])])
       \<and> generate [(PStr ''events'', PList [])]
           = Inr (pdict (create_base_spec @ [(''channels'', PDict [])]))
       \<and> generate [] = Inr (pdict (create_base_spec @ [(''channels'', PDict [])]))"
  using valid_set_order_Nil[OF assms]
  by (simp add: generate_spec_cases generate_info_result generate_servers_def
        generate_channels_def generate_operations_def generate_components_def
        and_then_def dict_of_items_def generate_def event_get_def)

theorem generate_empty_event_list_witness:
  "valid_set_order run_a
   \<and> item (projr (generate_spec run_a ''billing'' [] ''2.1.0'')) ''asyncapi'' = PStr ''3.0.0''
   \<and> item (item (projr (generate_spec run_a ''billing'' [] ''2.1.0'')) ''info'') ''title''
       = PStr ''billing Event API''
   \<and> item (projr (generate_spec run_a ''billing'' [] ''2.1.0'')) ''channels'' = PDict []
   \<and> item (projr (generate_spec run_a ''billing'' [] ''2.1.0'')) ''operations'' = PDict []
   \<and> item (projr (generate [])) ''channels'' = PDict []"
proof -
  note T = generate_empty_event_list[OF valid_run_a, of "''billing''" "''2.1.0''"]
  have g: "generate_spec run_a ''billing'' [] ''2.1.0'' = Inr (projr (generate_spec run_a ''billing'' [] ''2.1.0''))"
    using T by simp
  have 1: "item (projr (generate_spec run_a ''billing'' [] ''2.1.0'')) ''asyncapi'' = PStr ''3.0.0''"
    by code_simp
  have 2: "item (item (projr (generate_spec run_a ''billing'' [] ''2.1.0'')) ''info'') ''title''
       = PStr ''billing Event API''" by code_simp
  have 3: "item (projr (generate_spec run_a ''billing'' [] ''2.1.0'')) ''channels'' = PDict []" by code_simp
  have 4: "item (projr (generate_spec run_a ''billing'' [] ''2.1.0'')) ''operations'' = PDict []" by code_simp
  have 5: "item (projr (generate [])) ''channels'' = PDict []" by code_simp
  show ?thesis using valid_run_a g 1 2 3 4 5 by blast
qed

text \<open>
  Claim C8 does not hold of the code. On a record without the key \<open>name\<close> the catalog
  manager's \<open>_create_specification\<close> raises KeyError (it reads \<open>event['name']\<close>), and
  \<open>generate_spec\<close> raises ValueError on a record without \<open>channel_name\<close>: its channels
  section defaults the name to \<open>unknown\<close>, but \<open>_generate_components\<close> compares
  \<open>e.get('channel_name')\<close>, which is \<open>None\<close>, with the defaulted name and finds no
  record. \<open>generate\<close> of generator.py does what the claim says: the record gets the
  channel \<open>unknown\<close>.
\<close>

theorem record_without_name_raises:
  "create_specification ''acme/shop'' [nameless_record] = Inl KeyError
   \<and> generate_spec run_a ''svc'' [nameless_record] ''1.0.0'' = Inl ValueError
   \<and> map_sum id dict_keys (generate_channels [nameless_record]) = Inr [PStr ''unknown'']
   \<and> map_sum id (\<lambda>d. dict_keys (item d ''channels''))
        (generate [(PStr ''events'', PList [PDict nameless_record])]) = Inr [PStr ''unknown'']"
  by code_simp

end
